theory Spec2Isabelle
  imports Complex_Main "HOL-Library.Word"
begin

section \<open>The Qt host-interface bridge of DuckStation (qthostinterface.cpp)\<close>

text \<open>
  The bridge object \<open>QtHostInterface\<close> lives on a dedicated worker thread. The model is a
  state record holding the members of the object, the file's two statics, the posted-call
  queue of the worker thread, and a trace of the calls made to the collaborators (emulation
  core, input manager, display, Qt signals), each tagged with the thread that made it.
  Panics and failed assertions are error values.
\<close>

subsection \<open>Threads, errors, collaborator types\<close>

datatype thread = UIThread | WorkerThread

datatype error =
    Panic string
  | AssertionFailed string
  | NullPointer string

text \<open>\<open>quint32\<close> and \<open>qint32\<close> are 32-bit words (the latter read as signed); no arithmetic
  is done on them here.\<close>

type_synonym QString = string
type_synonym u32 = "32 word"
type_synonym s32 = "32 word"

text \<open>\<open>SystemBootParameters\<close> is declared by the core; the model keeps the file name.\<close>

datatype SystemBootParameters = SystemBootParameters (filename: string)

text \<open>\<open>System::State\<close> as the spec lists it.\<close>

datatype system_state = Shutdown | Running | Paused

text \<open>
  The display object is a collaborator: the record holds its answers, and with them the
  answers of \<open>ImGuiManager::Initialize()\<close> and \<open>CreateHostDisplayResources()\<close> for that
  display. \<open>IsFullscreen\<close> is the answer of \<open>m_display->IsFullscreen()\<close> after the window
  was updated with the given fullscreen request.
\<close>

record HostDisplay =
  widget_created :: bool
  HasRenderDevice :: bool
  MakeRenderContextCurrent :: bool
  InitializeRenderDevice :: bool
  ImGuiManager_Initialize :: bool
  CreateHostDisplayResources :: bool
  IsFullscreen :: "bool \<Rightarrow> bool"

subsection \<open>Operations of the bridge and Qt connection types\<close>

datatype connection = QueuedConnection | BlockingQueuedConnection

text \<open>
  One constructor for each member function that can be posted to the worker thread with
  \<open>QMetaObject::invokeMethod\<close>, with the arguments carried by \<open>Q_ARG\<close>. A
  \<open>std::function<void()>\<close> callback is a number: running it is an event of the trace.
  \<open>quit\<close> is the slot of the worker's \<open>QEventLoop\<close>.
\<close>

datatype op =
    setDefaultSettings
  | applySettings bool
  | applyInputProfile QString
  | bootSystem SystemBootParameters
  | resumeSystemFromState QString bool
  | redrawDisplayWindow
  | toggleFullscreen
  | powerOffSystem
  | powerOffSystemWithoutSaving
  | resetSystem
  | pauseSystem bool bool
  | changeDisc QString
  | changeDiscFromPlaylist u32
  | loadCheatList QString
  | setCheatEnabled u32 bool
  | applyCheat u32
  | reloadPostProcessingShaders
  | requestRenderWindowScale real
  | executeOnEmulationThread nat bool
  | loadState QString
  | loadStateSlot bool s32
  | saveState QString bool
  | saveStateSlot bool s32 bool
  | undoLoadState
  | setAudioOutputVolume int int
  | setAudioOutputMuted bool
  | startDumpingAudio
  | stopDumpingAudio
  | singleStepCPU
  | dumpRAM QString
  | dumpVRAM QString
  | dumpSPURAM QString
  | saveScreenshot
  | doStopThread
  | quit

subsection \<open>Settings store\<close>

text \<open>
  Modelled from the spec: \<open>INISettingsInterface\<close> is not in this file. The spec: a key/value
  configuration, persisted as a settings file with a version stamp. A store maps
  (section, key) to a value.
\<close>

datatype setting =
    BoolValue bool
  | IntValue int
  | FloatValue real
  | StringValue string
  | StringList "string list"

type_synonym store = "(string \<times> string) \<rightharpoonup> setting"

text \<open>A \<open>QTimer\<close> is a \<open>QObject\<close>: it lives in the thread that created it, and the event
  loop of that thread delivers its \<open>timeout\<close>.\<close>

record QTimer =
  singleShot :: bool
  interval :: nat
  thread_affinity :: thread

subsection \<open>Signals and trace events\<close>

datatype signal =
    errorReported QString
  | messageReported QString
  | debuggerMessageReported QString
  | messageConfirmed QString
  | settingsResetToDefault
  | gameListRefreshed
  | emulationStarting
  | emulationStarted
  | emulationPaused bool
  | emulationStopped
  | focusDisplayWidgetRequested
  | createDisplayRequested bool bool
  | updateDisplayRequested bool bool
  | destroyDisplayRequested
  | inputProfileLoaded
  | cheatEnabled u32 bool

datatype event =
    Emit signal
  | HostInterface_ReportError QString
  | DoneRenderContextCurrent
  | OnHostDisplayResized
  | UpdateSoftwareCursor
  | UpdateSpeedLimiterState
  | RenderOSD
  | DisplayRender
  | ImGuiNewFrame
  | System_RunFrame
  | System_RunFrames
  | System_Throttle
  | System_UpdatePerformanceCounters
  | System_CancelPendingStartup
  | InputManager_PollSources
  | PollAndUpdate
  | Core op
  | Callback nat
  | Dispatch op
  | UI_processEvents
  | AsksUIThread
  | SettingsInterface_Save store
  | Log_Error string
  | QTimer_start nat
  | CommonHostInterface_SetDefaultSettings
  | CommonHostInterface_ApplySettings bool
  | CommonHostInterface_Initialize
  | CommonHostInterface_Shutdown
  | CommonHostInterface_OnSystemCreated
  | CommonHostInterface_OnSystemPaused bool
  | CommonHostInterface_OnSystemDestroyed
  | HostInterface_ReportMessage QString
  | Host_ClearOSDMessages
  | SetUserDirectory
  | InitResult bool
  | GameList_Refresh bool bool
  | GetMostRecentResumeSaveStatePath
  | ReleaseHostDisplayResources
  | ImGuiManager_Shutdown
  | DestroyRenderDevice

subsection \<open>The state\<close>

text \<open>
  The members of \<open>QtHostInterface\<close> keep their names; the timer member is \<open>None\<close> when the
  pointer is null and otherwise says whether the timer is active. \<open>posted\<close> is the worker
  thread's queue of posted calls and \<open>loop_exit\<close> the exit flag of its \<open>QEventLoop\<close>.
  \<open>s_base_settings_interface\<close> and \<open>s_settings_save_timer\<close> are the file's statics;
  \<open>settings_file\<close> is the content of the settings file on disk and \<open>file_writable\<close> whether a
  write to it succeeds. \<open>system\<close>, \<open>startup_cancelled\<close> and \<open>FullscreenUI_IsInitialized\<close> are
  state of the core; \<open>core_succeeds\<close> is the answer of the core call an operation makes, and
  \<open>created_display\<close> the display the UI thread creates when asked.
\<close>

record bridge =
  m_display :: "HostDisplay option"
  m_is_fullscreen :: bool
  m_is_exclusive_fullscreen :: bool
  m_is_rendering_to_main :: bool
  m_lost_exclusive_fullscreen :: bool
  m_display_all_frames :: bool
  m_frame_step_request :: bool
  m_throttler_enabled :: bool
  m_shutdown_flag :: bool
  m_worker_thread_sync_execute_done :: bool
  m_background_controller_polling_timer :: "bool option"
  posted :: "(op \<times> connection) list"
  loop_exit :: bool
  s_base_settings_interface :: store
  s_settings_save_timer :: "QTimer option"
  settings_file :: "store option"
  file_writable :: bool
  system :: system_state
  startup_cancelled :: nat
  FullscreenUI_IsInitialized :: bool
  core_succeeds :: "op \<Rightarrow> bool"
  created_display :: "HostDisplay option"
  caller_released :: nat
  trace :: "(thread \<times> event) list"

definition record_event :: "thread \<Rightarrow> event \<Rightarrow> bridge \<Rightarrow> bridge" where
  "record_event th e s = s\<lparr>trace := trace s @ [(th, e)]\<rparr>"

definition record_events :: "thread \<Rightarrow> event list \<Rightarrow> bridge \<Rightarrow> bridge" where
  "record_events th es s = s\<lparr>trace := trace s @ map (Pair th) es\<rparr>"

text \<open>\<open>isOnWorkerThread()\<close>: the current thread is the worker thread.\<close>

definition isOnWorkerThread :: "thread \<Rightarrow> bool" where
  "isOnWorkerThread th = (th = WorkerThread)"

text \<open>\<open>QMetaObject::invokeMethod(this, name, connection, args)\<close>: the call is appended to
  the posted-call queue of the worker thread. A blocking-queued call carries a semaphore of
  its own, released when its slot has returned, on which the caller waits. Posted calls run
  in posting order, so the semaphores are released in the order their calls were posted:
  \<open>caller_released\<close> counts the semaphores released so far.\<close>

definition invokeMethod :: "op \<Rightarrow> connection \<Rightarrow> bridge \<Rightarrow> bridge" where
  "invokeMethod c conn s = s\<lparr>posted := posted s @ [(c, conn)]\<rparr>"

definition blocking_calls :: "(op \<times> connection) list \<Rightarrow> nat" where
  "blocking_calls q = length (filter (\<lambda>p. snd p = BlockingQueuedConnection) q)"


text \<open>Sequencing of steps that may fail.\<close>

definition bindE :: "error + 'a \<Rightarrow> ('a \<Rightarrow> error + 'b) \<Rightarrow> error + 'b" where
  "bindE m f = (case m of Inl e \<Rightarrow> Inl e | Inr x \<Rightarrow> f x)"

subsection \<open>Display handling\<close>

text \<open>\<open>renderDisplay\<close> dereferences \<open>m_display\<close> unchecked.\<close>

definition renderDisplay :: "thread \<Rightarrow> bridge \<Rightarrow> error + bridge" where
  "renderDisplay th s =
     (case m_display s of
        None \<Rightarrow> Inl (NullPointer ''m_display'')
      | Some d \<Rightarrow> Inr (record_events th [RenderOSD, DisplayRender, ImGuiNewFrame] s))"

definition redrawDisplayWindow_slot :: "thread \<Rightarrow> bridge \<Rightarrow> error + bridge" where
  "redrawDisplayWindow_slot th s =
     (if \<not> isOnWorkerThread th then Inr (invokeMethod redrawDisplayWindow QueuedConnection s)
      else if m_display s = None \<or> system s = Shutdown then Inr s
      else renderDisplay th s)"

definition updateDisplayState :: "thread \<Rightarrow> bridge \<Rightarrow> error + bridge" where
  "updateDisplayState th s =
     (case m_display s of
        None \<Rightarrow> Inr s
      | Some d \<Rightarrow>
          (let s1 = record_event th DoneRenderContextCurrent s;
               s2 = record_event th
                      (Emit (updateDisplayRequested (m_is_fullscreen s1)
                               (m_is_rendering_to_main s1 \<and> \<not> m_is_fullscreen s1))) s1
           in if \<not> widget_created d \<or> \<not> MakeRenderContextCurrent d
              then Inl (Panic ''Failed to make device context current after updating'')
              else
                (let s3 = s2\<lparr>m_is_exclusive_fullscreen := IsFullscreen d (m_is_fullscreen s2)\<rparr>;
                     s4 = record_event th OnHostDisplayResized s3
                 in bindE
                      (if system s4 \<noteq> Shutdown
                       then (let s5 = record_event th UpdateSoftwareCursor s4
                             in if \<not> FullscreenUI_IsInitialized s5
                                then redrawDisplayWindow_slot th s5 else Inr s5)
                       else Inr s4)
                      (\<lambda>s6. Inr (record_event th UpdateSpeedLimiterState s6)))))"

definition SetFullscreen :: "thread \<Rightarrow> bool \<Rightarrow> bridge \<Rightarrow> error + (bool \<times> bridge)" where
  "SetFullscreen th enabled s =
     (if m_is_fullscreen s = enabled then Inr (True, s)
      else bindE (updateDisplayState th (s\<lparr>m_is_fullscreen := enabled\<rparr>))
                 (\<lambda>s'. Inr (True, s')))"

definition ReportError :: "thread \<Rightarrow> QString \<Rightarrow> bridge \<Rightarrow> error + bridge" where
  "ReportError th message s =
     (let s1 = record_event th (HostInterface_ReportError message) s;
          was_fullscreen = m_is_fullscreen s1
      in bindE (if was_fullscreen then SetFullscreen th False s1 else Inr (True, s1))
           (\<lambda>(r, s2).
              let s3 = record_event th (Emit (errorReported message)) s2
              in bindE (if was_fullscreen then SetFullscreen th True s3 else Inr (True, s3))
                   (\<lambda>(r, s4). Inr s4)))"

text \<open>\<open>messageConfirmed\<close> is a signal with a result: the answer comes from the UI.\<close>

definition ConfirmMessage ::
  "thread \<Rightarrow> (QString \<Rightarrow> bool) \<Rightarrow> QString \<Rightarrow> bridge \<Rightarrow> error + (bool \<times> bridge)" where
  "ConfirmMessage th answer message s =
     (let was_fullscreen = m_is_fullscreen s
      in bindE (if was_fullscreen then SetFullscreen th False s else Inr (True, s))
           (\<lambda>(r, s2).
              let s3 = record_event th (Emit (messageConfirmed message)) s2;
                  result = answer message
              in bindE (if was_fullscreen then SetFullscreen th True s3 else Inr (True, s3))
                   (\<lambda>(r, s4). Inr (result, s4))))"

subsection \<open>Settings: mutation and the debounced save\<close>

definition SETTINGS_SAVE_DELAY :: nat where
  "SETTINGS_SAVE_DELAY = 1000"

definition QueueSettingsSave :: "thread \<Rightarrow> bridge \<Rightarrow> bridge" where
  "QueueSettingsSave th s =
     (if s_settings_save_timer s \<noteq> None then s
      else record_event th (QTimer_start SETTINGS_SAVE_DELAY)
             (s\<lparr>s_settings_save_timer :=
                  Some \<lparr>singleShot = True, interval = SETTINGS_SAVE_DELAY,
                        thread_affinity = th\<rparr>\<rparr>))"

text \<open>Modelled from the spec: \<open>INISettingsInterface::Save()\<close> is not in this file. The spec:
  the settings are persisted by a disk write. The store is written to the file; the result
  says whether the write succeeded.\<close>

definition INISettingsInterface_Save :: "thread \<Rightarrow> bridge \<Rightarrow> bool \<times> bridge" where
  "INISettingsInterface_Save th s =
     (let s1 = record_event th (SettingsInterface_Save (s_base_settings_interface s)) s
      in if file_writable s1
         then (True, s1\<lparr>settings_file := Some (s_base_settings_interface s1)\<rparr>)
         else (False, s1))"

definition SaveSettings :: "thread \<Rightarrow> bridge \<Rightarrow> error + bridge" where
  "SaveSettings th s =
     (if isOnWorkerThread th
      then Inl (AssertionFailed ''Saving should happen on the UI thread.'')
      else
        (let (ok, s1) = INISettingsInterface_Save th s;
             s2 = (if ok then s1 else record_event th (Log_Error ''Failed to save settings.'') s1)
         in case s_settings_save_timer s2 of
              None \<Rightarrow> Inl (NullPointer ''s_settings_save_timer'')
            | Some t \<Rightarrow> Inr (s2\<lparr>s_settings_save_timer := None\<rparr>)))"

text \<open>The timer's \<open>timeout\<close> signal is connected to the function \<open>SaveSettings\<close> with no
  receiver object, so the call is made where the signal is emitted: on the thread the timer
  lives in, from that thread's event loop (\<open>processEvents(AllEvents)\<close> and \<open>exec()\<close> on the
  worker thread, the application's loop on the UI thread) once the interval has elapsed.
  Time is not part of the state: the timeout is a step of its own.\<close>

definition QTimer_timeout :: "bridge \<Rightarrow> error + bridge" where
  "QTimer_timeout s =
     (case s_settings_save_timer s of
        None \<Rightarrow> Inr s
      | Some t \<Rightarrow> SaveSettings (thread_affinity t) s)"

datatype mutation =
    SetBaseBoolSettingValue string string bool
  | SetBaseIntSettingValue string string int
  | SetBaseFloatSettingValue string string real
  | SetBaseStringSettingValue string string string
  | SetBaseStringListSettingValue string string "string list"
  | AddBaseValueToStringList string string string
  | RemoveBaseValueFromStringList string string string
  | RemoveBaseSettingValue string string

definition GetStringList :: "store \<Rightarrow> string \<Rightarrow> string \<Rightarrow> string list" where
  "GetStringList st section key =
     (case st (section, key) of Some (StringList l) \<Rightarrow> l | _ \<Rightarrow> [])"

text \<open>Modelled from the spec: the setters of \<open>INISettingsInterface\<close> are not in this file.
  The spec: a key/value configuration. Each setter writes one key, \<open>DeleteValue\<close> removes
  it; \<open>AddToStringList\<close> and \<open>RemoveFromStringList\<close> answer whether the list changed.\<close>

fun apply_to_store :: "mutation \<Rightarrow> store \<Rightarrow> bool \<times> store" where
  "apply_to_store (SetBaseBoolSettingValue sec key v) st = (True, st((sec, key) \<mapsto> BoolValue v))"
| "apply_to_store (SetBaseIntSettingValue sec key v) st = (True, st((sec, key) \<mapsto> IntValue v))"
| "apply_to_store (SetBaseFloatSettingValue sec key v) st = (True, st((sec, key) \<mapsto> FloatValue v))"
| "apply_to_store (SetBaseStringSettingValue sec key v) st =
     (True, st((sec, key) \<mapsto> StringValue v))"
| "apply_to_store (SetBaseStringListSettingValue sec key vs) st =
     (True, st((sec, key) \<mapsto> StringList vs))"
| "apply_to_store (AddBaseValueToStringList sec key v) st =
     (if v \<in> set (GetStringList st sec key) then (False, st)
      else (True, st((sec, key) \<mapsto> StringList (GetStringList st sec key @ [v]))))"
| "apply_to_store (RemoveBaseValueFromStringList sec key v) st =
     (if v \<in> set (GetStringList st sec key)
      then (True, st((sec, key) \<mapsto> StringList (removeAll v (GetStringList st sec key))))
      else (False, st))"
| "apply_to_store (RemoveBaseSettingValue sec key) st = (True, st((sec, key) := None))"

text \<open>Every \<open>QtHost::...Base...\<close> function: change the store under the settings lock, then
  \<open>QueueSettingsSave()\<close>; the two list functions return early when nothing changed.\<close>

definition mutate :: "thread \<Rightarrow> mutation \<Rightarrow> bridge \<Rightarrow> bool \<times> bridge" where
  "mutate th m s =
     (let (changed, st) = apply_to_store m (s_base_settings_interface s)
      in if \<not> changed then (False, s)
         else (True, QueueSettingsSave th (s\<lparr>s_base_settings_interface := st\<rparr>)))"

text \<open>A burst of mutations, each issued on its own thread; the results say which of them
  changed the store.\<close>

fun mutate_all :: "(thread \<times> mutation) list \<Rightarrow> bridge \<Rightarrow> bool list \<times> bridge" where
  "mutate_all [] s = ([], s)"
| "mutate_all ((th, m) # ms) s =
     (let (r, s1) = mutate th m s; (rs, s2) = mutate_all ms s1 in (r # rs, s2))"

definition final_store :: "(thread \<times> mutation) list \<Rightarrow> store \<Rightarrow> store" where
  "final_store ms st = fold (\<lambda>(th, m) st. snd (apply_to_store m st)) ms st"

text \<open>The thread of the first mutation of a burst that changes the store.\<close>

fun first_change :: "(thread \<times> mutation) list \<Rightarrow> store \<Rightarrow> thread option" where
  "first_change [] st = None"
| "first_change ((th, m) # ms) st =
     (if fst (apply_to_store m st) then Some th
      else first_change ms (snd (apply_to_store m st)))"

definition timer_starts :: "bridge \<Rightarrow> (thread \<times> event) list" where
  "timer_starts s = filter (\<lambda>(th, e). case e of QTimer_start d \<Rightarrow> True | _ \<Rightarrow> False) (trace s)"

definition saves :: "bridge \<Rightarrow> (thread \<times> event) list" where
  "saves s = filter (\<lambda>(th, e). case e of SettingsInterface_Save st \<Rightarrow> True | _ \<Rightarrow> False) (trace s)"

subsection \<open>Worker-thread initialisation\<close>

text \<open>Decimal printing, for the \<open>%d\<close> and \<open>%u\<close> of the formatted messages.\<close>

definition digit_char :: "nat \<Rightarrow> char" where
  "digit_char d = char_of (d + 48)"

fun decimal :: "nat \<Rightarrow> string" where
  "decimal n =
     (if 10 \<le> n then decimal (n div 10) @ [digit_char (n mod 10)] else [digit_char n])"

declare decimal.simps [simp del]

definition signed_decimal :: "int \<Rightarrow> string" where
  "signed_decimal i = (if i < 0 then ''-'' @ decimal (nat (- i)) else decimal (nat i))"

text \<open>
  What the file takes from declarations that live elsewhere: the constant
  \<open>SETTINGS_VERSION\<close>, the defaults written by \<open>CommonHostInterface::SetDefaultSettings(si)\<close>,
  the result of \<open>CommonHostInterface::Initialize()\<close>, and whether \<open>_WIN32\<close> is defined.
\<close>

record declarations =
  SETTINGS_VERSION :: int
  CommonHostInterface_defaults :: "store \<Rightarrow> store"
  CommonHostInterface_Initialize_result :: bool
  WIN32 :: bool

text \<open>Modelled from the spec: the getters of \<open>INISettingsInterface\<close> are not in this file.
  The spec: a key/value configuration. A getter answers the stored value of its type, and
  the default otherwise.\<close>

definition GetIntValue :: "store \<Rightarrow> string \<Rightarrow> string \<Rightarrow> int \<Rightarrow> int" where
  "GetIntValue st section key default_value =
     (case st (section, key) of Some (IntValue i) \<Rightarrow> i | _ \<Rightarrow> default_value)"

definition GetBoolValue :: "store \<Rightarrow> string \<Rightarrow> string \<Rightarrow> bool \<Rightarrow> bool" where
  "GetBoolValue st section key default_value =
     (case st (section, key) of Some (BoolValue b) \<Rightarrow> b | _ \<Rightarrow> default_value)"

definition GetStringValue :: "store \<Rightarrow> string \<Rightarrow> string \<Rightarrow> string \<Rightarrow> string" where
  "GetStringValue st section key default_value =
     (case st (section, key) of Some (StringValue v) \<Rightarrow> v | _ \<Rightarrow> default_value)"

text \<open>\<open>QtHostInterface::SetDefaultSettings(SettingsInterface& si)\<close>.\<close>

definition SetDefaultSettings_si :: "declarations \<Rightarrow> store \<Rightarrow> store" where
  "SetDefaultSettings_si decls si =
     (CommonHostInterface_defaults decls si)
       ((''Hotkeys'', ''PowerOff'') \<mapsto> StringValue ''Keyboard/Escape'',
        (''Hotkeys'', ''LoadSelectedSaveState'') \<mapsto> StringValue ''Keyboard/F1'',
        (''Hotkeys'', ''SaveSelectedSaveState'') \<mapsto> StringValue ''Keyboard/F2'',
        (''Hotkeys'', ''SelectPreviousSaveStateSlot'') \<mapsto> StringValue ''Keyboard/F3'',
        (''Hotkeys'', ''SelectNextSaveStateSlot'') \<mapsto> StringValue ''Keyboard/F4'',
        (''Main'', ''RenderToMainWindow'') \<mapsto> BoolValue True)"

text \<open>Modelled from the spec: \<open>INISettingsInterface::Load()\<close> is not in this file. The spec:
  a settings load failure falls back to the defaults. The file's content replaces the store;
  the result is false when there is no readable file.\<close>

definition INISettingsInterface_Load :: "bridge \<Rightarrow> bool \<times> bridge" where
  "INISettingsInterface_Load s =
     (case settings_file s of
        None \<Rightarrow> (False, s)
      | Some f \<Rightarrow> (True, s\<lparr>s_base_settings_interface := f\<rparr>))"

definition version_mismatch_message :: "int \<Rightarrow> int \<Rightarrow> string" where
  "version_mismatch_message found expected =
     ''Settings version '' @ signed_decimal found @ '' does not match expected version ''
       @ signed_decimal expected @ '', resetting''"

text \<open>The store after \<open>Load()\<close> and the defaults applied when loading failed: the state
  in which \<open>initializeOnThread\<close> reads the version stamp.\<close>

definition load_base_settings :: "declarations \<Rightarrow> bridge \<Rightarrow> bridge" where
  "load_base_settings decls s =
     (let s1 = s\<lparr>s_base_settings_interface := Map.empty\<rparr>;
          (loaded, s2) = INISettingsInterface_Load s1
      in if \<not> loaded
         then s2\<lparr>s_base_settings_interface :=
                   SetDefaultSettings_si decls (s_base_settings_interface s2)\<rparr>
         else s2)"

text \<open>The version check of \<open>initializeOnThread\<close>, on the state \<open>load_base_settings\<close> left.\<close>

definition check_settings_version :: "declarations \<Rightarrow> thread \<Rightarrow> bridge \<Rightarrow> error + bridge" where
  "check_settings_version decls th s =
     (let settings_version =
            GetIntValue (s_base_settings_interface s) ''Main'' ''SettingsVersion'' (- 1)
      in if settings_version \<noteq> SETTINGS_VERSION decls
         then bindE (ReportError th
                       (version_mismatch_message settings_version (SETTINGS_VERSION decls)) s)
                (\<lambda>s1.
                   let s2 = s1\<lparr>s_base_settings_interface := Map.empty\<rparr>;
                       s3 = s2\<lparr>s_base_settings_interface :=
                                 (s_base_settings_interface s2)
                                   ((''Main'', ''SettingsVersion'') \<mapsto>
                                      IntValue (SETTINGS_VERSION decls))\<rparr>;
                       s4 = s3\<lparr>s_base_settings_interface :=
                                 SetDefaultSettings_si decls (s_base_settings_interface s3)\<rparr>
                   in Inr (snd (INISettingsInterface_Save th s4)))
         else Inr s)"

definition setImGuiFont :: "declarations \<Rightarrow> bridge \<Rightarrow> error + bridge" where
  "setImGuiFont decls s =
     (let language = GetStringValue (s_base_settings_interface s) ''Main'' ''Language'' []
      in if WIN32 decls \<and> (language = ''ja'' \<or> language = ''zh-cn'')
         then Inl (Panic ''Fixme'')
         else Inr s)"

definition startBackgroundControllerPollTimer :: "bridge \<Rightarrow> error + bridge" where
  "startBackgroundControllerPollTimer s =
     (case m_background_controller_polling_timer s of
        None \<Rightarrow> Inl (NullPointer ''m_background_controller_polling_timer'')
      | Some active \<Rightarrow>
          if active then Inr s
          else Inr (s\<lparr>m_background_controller_polling_timer := Some True\<rparr>))"

definition stopBackgroundControllerPollTimer :: "bridge \<Rightarrow> error + bridge" where
  "stopBackgroundControllerPollTimer s =
     (case m_background_controller_polling_timer s of
        None \<Rightarrow> Inl (NullPointer ''m_background_controller_polling_timer'')
      | Some active \<Rightarrow>
          if \<not> active then Inr s
          else Inr (s\<lparr>m_background_controller_polling_timer := Some False\<rparr>))"

definition initializeOnThread ::
  "declarations \<Rightarrow> thread \<Rightarrow> bridge \<Rightarrow> error + (bool \<times> bridge)" where
  "initializeOnThread decls th s =
     bindE (check_settings_version decls th
              (load_base_settings decls (record_event th SetUserDirectory s)))
       (\<lambda>s1.
          let s2 = record_event th CommonHostInterface_Initialize s1
          in if \<not> CommonHostInterface_Initialize_result decls then Inr (False, s2)
             else bindE (setImGuiFont decls s2)
                    (\<lambda>s3. bindE (startBackgroundControllerPollTimer
                                   (s3\<lparr>m_background_controller_polling_timer := Some False\<rparr>))
                             (\<lambda>s4. Inr (True, s4))))"

subsection \<open>Waking the worker's event loop; callbacks from the core\<close>

definition wakeThread :: "thread \<Rightarrow> bridge \<Rightarrow> bridge" where
  "wakeThread th s =
     (if isOnWorkerThread th then s\<lparr>loop_exit := True\<rparr>
      else invokeMethod quit QueuedConnection s)"

definition OnSystemCreated :: "thread \<Rightarrow> bridge \<Rightarrow> error + bridge" where
  "OnSystemCreated th s =
     bindE (stopBackgroundControllerPollTimer
              (wakeThread th (record_event th CommonHostInterface_OnSystemCreated s)))
       (\<lambda>s1. Inr (record_events th [Emit emulationStarted, Emit (emulationPaused False)] s1))"

definition OnSystemPaused :: "thread \<Rightarrow> bool \<Rightarrow> bridge \<Rightarrow> error + bridge" where
  "OnSystemPaused th paused s =
     (let s1 = record_events th
                 [CommonHostInterface_OnSystemPaused paused, Emit (emulationPaused paused)] s
      in if \<not> paused
         then bindE (stopBackgroundControllerPollTimer (wakeThread th s1))
                (\<lambda>s2. Inr (record_event th (Emit focusDisplayWidgetRequested) s2))
         else bindE (startBackgroundControllerPollTimer s1) (renderDisplay th))"

definition OnSystemDestroyed :: "thread \<Rightarrow> bridge \<Rightarrow> error + bridge" where
  "OnSystemDestroyed th s =
     bindE (startBackgroundControllerPollTimer
              (record_events th [CommonHostInterface_OnSystemDestroyed, Host_ClearOSDMessages] s))
       (\<lambda>s1. Inr (record_event th (Emit emulationStopped) s1))"

text \<open>\<open>AcquireHostDisplay\<close>: the \<open>createDisplayRequested\<close> signal is answered by the UI
  thread, which creates the display; \<open>created_display\<close> is what it leaves in \<open>m_display\<close>.\<close>

definition AcquireHostDisplay :: "thread \<Rightarrow> bridge \<Rightarrow> error + (bool \<times> bridge)" where
  "AcquireHostDisplay th s =
     (if m_display s \<noteq> None then Inl (AssertionFailed ''!m_display'')
      else
        (let s1 = s\<lparr>m_is_rendering_to_main :=
                      GetBoolValue (s_base_settings_interface s) ''Main'' ''RenderToMainWindow'' True\<rparr>;
             s2 = record_event th
                    (Emit (createDisplayRequested (m_is_fullscreen s1) (m_is_rendering_to_main s1))) s1
         in case created_display s2 of
              None \<Rightarrow> Inr (False, record_event th (Emit destroyDisplayRequested) s2)
            | Some d \<Rightarrow>
                if \<not> widget_created d \<or> \<not> HasRenderDevice d
                then Inr (False, record_event th (Emit destroyDisplayRequested) s2)
                else if \<not> MakeRenderContextCurrent d \<or> \<not> InitializeRenderDevice d
                        \<or> \<not> ImGuiManager_Initialize d \<or> \<not> CreateHostDisplayResources d
                then Inr (False,
                       record_events th
                         [ImGuiManager_Shutdown, ReleaseHostDisplayResources, DestroyRenderDevice,
                          Emit destroyDisplayRequested] s2)
                else Inr (True,
                       s2\<lparr>m_display := Some d,
                          m_is_exclusive_fullscreen := IsFullscreen d (m_is_fullscreen s2)\<rparr>)))"

definition ReleaseHostDisplay :: "thread \<Rightarrow> bridge \<Rightarrow> error + bridge" where
  "ReleaseHostDisplay th s =
     (case m_display s of
        None \<Rightarrow> Inl (AssertionFailed ''m_display'')
      | Some d \<Rightarrow>
          Inr ((record_events th
                  [ReleaseHostDisplayResources, ImGuiManager_Shutdown, DestroyRenderDevice,
                   Emit destroyDisplayRequested] s)
                 \<lparr>m_display := None, m_is_fullscreen := False\<rparr>))"

subsection \<open>The emulation core\<close>

text \<open>
  The core (\<open>System::\<close>, \<open>CommonHostInterface::\<close>) is not part of this file. A call into it is
  an event \<open>Core c\<close>: the call that the body of operation \<open>c\<close> makes, with its arguments.
  Three of its functions drive the run-loop and are given a model.
\<close>

definition is_boot :: "op \<times> connection \<Rightarrow> bool" where
  "is_boot p = (case fst p of bootSystem params \<Rightarrow> True | _ \<Rightarrow> False)"


definition pending_boots :: "bridge \<Rightarrow> nat" where
  "pending_boots s = length (filter is_boot (posted s))"

text \<open>Modelled from the spec: \<open>System::CancelPendingStartup()\<close> is not in this file. The
  spec: power off issued while a system boot is still pending must cancel the pending boot.
  A boot is pending while a posted \<open>bootSystem\<close> has not been executed; the call cancels
  the boots pending when it is made and no other. Posted calls run in posting order, so
  \<open>startup_cancelled\<close>, the number of cancelled boots still to be executed, says which.\<close>

definition CancelPendingStartup :: "thread \<Rightarrow> bridge \<Rightarrow> bridge" where
  "CancelPendingStartup th s =
     record_event th System_CancelPendingStartup (s\<lparr>startup_cancelled := pending_boots s\<rparr>)"

text \<open>Modelled from the spec: \<open>BootSystem\<close> is not in this file. The spec: a boot command
  that executes successfully takes the loop from Blocked to Active; a cancelled boot does
  not start the system. A boot that goes ahead acquires the display and reports
  \<open>OnSystemCreated\<close>.\<close>

definition BootSystem :: "thread \<Rightarrow> SystemBootParameters \<Rightarrow> bridge \<Rightarrow> error + (bool \<times> bridge)" where
  "BootSystem th params s =
     (let s0 = record_event th (Core (bootSystem params)) s
      in if 0 < startup_cancelled s0
         then Inr (False, s0\<lparr>startup_cancelled := startup_cancelled s0 - 1\<rparr>)
         else if \<not> core_succeeds s0 (bootSystem params) then Inr (False, s0)
         else bindE (AcquireHostDisplay th s0)
                (\<lambda>(acquired, s1).
                   if \<not> acquired then Inr (False, s1)
                   else bindE (OnSystemCreated th (s1\<lparr>system := Running\<rparr>))
                          (\<lambda>s2. Inr (True, s2))))"

text \<open>Modelled from the spec: \<open>CommonHostInterface::PauseSystem\<close> is not in this file. The
  spec: the system state is one of Shutdown, Running, Paused; pausing a running system and
  resuming a paused one report \<open>OnSystemPaused\<close>.\<close>

definition PauseSystem :: "thread \<Rightarrow> bool \<Rightarrow> bridge \<Rightarrow> error + bridge" where
  "PauseSystem th paused s =
     (let s0 = record_event th (Core (pauseSystem paused False)) s
      in if system s0 = Shutdown \<or> paused = (system s0 = Paused) then Inr s0
         else OnSystemPaused th paused (s0\<lparr>system := (if paused then Paused else Running)\<rparr>))"

text \<open>Modelled from the spec: \<open>PowerOffSystem\<close> is not in this file. The spec: a powered-off
  system is Shutdown; the core releases the display and reports \<open>OnSystemDestroyed\<close>.\<close>

definition PowerOffSystem :: "thread \<Rightarrow> op \<Rightarrow> bridge \<Rightarrow> error + bridge" where
  "PowerOffSystem th c s =
     (let s0 = record_event th (Core c) s
      in if system s0 = Shutdown then Inr s0
         else bindE (ReleaseHostDisplay th (s0\<lparr>system := Shutdown\<rparr>)) (OnSystemDestroyed th))"

subsection \<open>Bodies of the operations\<close>

definition checkRenderToMainState :: "thread \<Rightarrow> bridge \<Rightarrow> error + bridge" where
  "checkRenderToMainState th s =
     (if system s \<noteq> Shutdown
      then
        (let render_to_main =
               GetBoolValue (s_base_settings_interface s) ''Main'' ''RenderToMainWindow'' True
         in if m_display s \<noteq> None \<and> \<not> m_is_fullscreen s
                 \<and> render_to_main \<noteq> m_is_rendering_to_main s
            then updateDisplayState th (s\<lparr>m_is_rendering_to_main := render_to_main\<rparr>)
            else if \<not> FullscreenUI_IsInitialized s then renderDisplay th s
            else Inr s)
      else Inr s)"

definition SetDefaultSettings :: "thread \<Rightarrow> bridge \<Rightarrow> error + bridge" where
  "SetDefaultSettings th s =
     bindE (checkRenderToMainState th (record_event th CommonHostInterface_SetDefaultSettings s))
       (\<lambda>s1. Inr (record_event th (Emit settingsResetToDefault) (QueueSettingsSave th s1)))"

definition ApplySettings :: "thread \<Rightarrow> bool \<Rightarrow> bridge \<Rightarrow> error + bridge" where
  "ApplySettings th display_osd_messages s =
     checkRenderToMainState th
       (record_event th (CommonHostInterface_ApplySettings display_osd_messages) s)"

definition ReportMessage :: "thread \<Rightarrow> QString \<Rightarrow> bridge \<Rightarrow> bridge" where
  "ReportMessage th message s =
     record_events th [HostInterface_ReportMessage message, Emit (messageReported message)] s"

definition quoted :: "string \<Rightarrow> string" where
  "quoted x = [CHR 0x27] @ x @ [CHR 0x27]"

text \<open>The code of each member function after its thread check.\<close>

fun body :: "thread \<Rightarrow> op \<Rightarrow> bridge \<Rightarrow> error + bridge" where
  "body th setDefaultSettings s = SetDefaultSettings th s"
| "body th (applySettings d) s = ApplySettings th d s"
| "body th (applyInputProfile path) s = Inl (Panic ''Fixme'')"
| "body th (bootSystem params) s =
     bindE (BootSystem th params (record_event th (Emit emulationStarting) s))
       (\<lambda>(booted, s1). if \<not> booted then Inr s1 else renderDisplay th s1)"
| "body th (resumeSystemFromState f boot_on_failure) s =
     Inr (record_events th [Emit emulationStarting, Core (resumeSystemFromState f boot_on_failure)] s)"
| "body th redrawDisplayWindow s =
     (if m_display s = None \<or> system s = Shutdown then Inr s else renderDisplay th s)"
| "body th toggleFullscreen s =
     bindE (SetFullscreen th (\<not> m_is_fullscreen s) s) (\<lambda>(r, s1). Inr s1)"
| "body th powerOffSystem s = PowerOffSystem th powerOffSystem s"
| "body th powerOffSystemWithoutSaving s = PowerOffSystem th powerOffSystemWithoutSaving s"
| "body th resetSystem s =
     (if system s = Shutdown
      then Inr (record_event th (Log_Error ''resetSystem() called without system'') s)
      else Inr (record_event th (Core resetSystem) s))"
| "body th (pauseSystem paused wait_until_paused) s = PauseSystem th paused s"
| "body th (changeDisc f) s =
     (if system s = Shutdown then Inr s else Inr (record_event th (Core (changeDisc f)) s))"
| "body th (changeDiscFromPlaylist i) s =
     (if system s = Shutdown then Inr s
      else
        (let s1 = record_event th (Core (changeDiscFromPlaylist i)) s
         in if \<not> core_succeeds s1 (changeDiscFromPlaylist i)
            then ReportError th (''Failed to switch to subimage '' @ decimal (unat i)) s1
            else Inr s1))"
| "body th (loadCheatList f) s = Inr (record_event th (Core (loadCheatList f)) s)"
| "body th (setCheatEnabled i e) s =
     Inr (record_events th [Core (setCheatEnabled i e), Emit (cheatEnabled i e)] s)"
| "body th (applyCheat i) s = Inr (record_event th (Core (applyCheat i)) s)"
| "body th reloadPostProcessingShaders s =
     Inr (record_event th (Core reloadPostProcessingShaders) s)"
| "body th (requestRenderWindowScale scale) s =
     Inr (record_event th (Core (requestRenderWindowScale scale)) s)"
| "body th (executeOnEmulationThread callback wait) s =
     (let s1 = record_event th (Callback callback) s
      in Inr (if wait then s1\<lparr>m_worker_thread_sync_execute_done := True\<rparr> else s1))"
| "body th (loadState f) s =
     Inr (record_event th (Core (loadState f))
            (if system s = Shutdown then record_event th (Emit emulationStarting) s else s))"
| "body th (loadStateSlot global slot) s =
     Inr (record_event th (Core (loadStateSlot global slot)) s)"
| "body th (saveState f block_until_done) s =
     (if system s \<noteq> Shutdown
      then Inr (record_event th (Core (saveState f block_until_done)) s) else Inr s)"
| "body th (saveStateSlot global slot block_until_done) s =
     (if system s \<noteq> Shutdown
      then Inr (record_event th (Core (saveStateSlot global slot block_until_done)) s)
      else Inr s)"
| "body th undoLoadState s = Inr (record_event th (Core undoLoadState) s)"
| "body th (setAudioOutputVolume v f) s =
     Inr (record_event th (Core (setAudioOutputVolume v f)) s)"
| "body th (setAudioOutputMuted m) s = Inr (record_event th (Core (setAudioOutputMuted m)) s)"
| "body th startDumpingAudio s = Inr (record_event th (Core startDumpingAudio) s)"
| "body th stopDumpingAudio s = Inr (record_event th (Core stopDumpingAudio) s)"
| "body th singleStepCPU s =
     (if system s = Shutdown then Inr s
      else renderDisplay th (record_event th (Core singleStepCPU) s))"
| "body th (dumpRAM f) s =
     (let s1 = record_event th (Core (dumpRAM f)) s
      in Inr (ReportMessage th
                (if core_succeeds s1 (dumpRAM f) then ''RAM dumped to '' @ quoted f
                 else ''Failed to dump RAM to '' @ quoted f) s1))"
| "body th (dumpVRAM f) s =
     (let s1 = record_event th (Core (dumpVRAM f)) s
      in Inr (ReportMessage th
                (if core_succeeds s1 (dumpVRAM f) then ''VRAM dumped to '' @ quoted f
                 else ''Failed to dump VRAM to '' @ quoted f) s1))"
| "body th (dumpSPURAM f) s =
     (let s1 = record_event th (Core (dumpSPURAM f)) s
      in Inr (ReportMessage th
                (if core_succeeds s1 (dumpSPURAM f) then ''SPU RAM dumped to '' @ quoted f
                 else ''Failed to dump SPU RAM to '' @ quoted f) s1))"
| "body th saveScreenshot s = Inr (record_event th (Core saveScreenshot) s)"
| "body th doStopThread s = Inr (s\<lparr>m_shutdown_flag := True, loop_exit := True\<rparr>)"
| "body th quit s = Inr (s\<lparr>loop_exit := True\<rparr>)"

subsection \<open>Thread dispatch of the operations\<close>

text \<open>The connection type each member function passes to \<open>invokeMethod\<close>.\<close>

fun connection_of :: "op \<Rightarrow> connection" where
  "connection_of (pauseSystem paused wait_until_paused) =
     (if wait_until_paused then BlockingQueuedConnection else QueuedConnection)"
| "connection_of (saveState f block_until_done) =
     (if block_until_done then BlockingQueuedConnection else QueuedConnection)"
| "connection_of (saveStateSlot global slot block_until_done) =
     (if block_until_done then BlockingQueuedConnection else QueuedConnection)"
| "connection_of singleStepCPU = BlockingQueuedConnection"
| "connection_of c = QueuedConnection"

text \<open>
  A member function called on thread \<open>th\<close>. Off the worker thread the call is posted and the
  function returns; the two power-off functions cancel a pending startup first.
  \<open>doStopThread\<close> and \<open>quit\<close> have no thread check: they are only ever run from the queue.
\<close>

definition slot :: "thread \<Rightarrow> op \<Rightarrow> bridge \<Rightarrow> error + bridge" where
  "slot th c s =
     (if c = doStopThread \<or> c = quit then body th c s
      else if \<not> isOnWorkerThread th
      then Inr (invokeMethod c (connection_of c)
                  (if c = powerOffSystem \<or> c = powerOffSystemWithoutSaving
                   then CancelPendingStartup th s else s))
      else body th c s)"

definition synchronousPowerOffSystem :: "thread \<Rightarrow> bridge \<Rightarrow> error + bridge" where
  "synchronousPowerOffSystem th s =
     (if \<not> isOnWorkerThread th
      then Inr (invokeMethod powerOffSystem BlockingQueuedConnection (CancelPendingStartup th s))
      else slot th powerOffSystem s)"

definition RunLater :: "nat \<Rightarrow> bridge \<Rightarrow> error + bridge" where
  "RunLater func s = Inr (invokeMethod (executeOnEmulationThread func False) QueuedConnection s)"

definition refreshGameList :: "thread \<Rightarrow> bool \<Rightarrow> bool \<Rightarrow> bridge \<Rightarrow> error + bridge" where
  "refreshGameList th invalidate_cache invalidate_database s =
     (if isOnWorkerThread th then Inl (AssertionFailed ''!isOnWorkerThread()'')
      else Inr (record_events th
                  [GameList_Refresh invalidate_cache invalidate_database, Emit gameListRefreshed] s))"

text \<open>\<open>state_filename\<close> is the answer of \<open>GetMostRecentResumeSaveStatePath()\<close>.\<close>

definition resumeSystemFromMostRecentState :: "thread \<Rightarrow> string \<Rightarrow> bridge \<Rightarrow> error + bridge" where
  "resumeSystemFromMostRecentState th state_filename s =
     (let s1 = record_event th GetMostRecentResumeSaveStatePath s
      in if state_filename = []
         then Inr (record_event th (Emit (errorReported ''No resume save state found.'')) s1)
         else slot th (loadState state_filename) s1)"

definition stopThread :: "thread \<Rightarrow> bridge \<Rightarrow> error + bridge" where
  "stopThread th s =
     (if isOnWorkerThread th then Inl (AssertionFailed ''!isOnWorkerThread()'')
      else Inr (invokeMethod doStopThread QueuedConnection s))"

text \<open>The operations callers reach the bridge through.\<close>

datatype operation =
    Slot op
  | SynchronousPowerOffSystem
  | RunLaterOp nat
  | RefreshGameList bool bool
  | ResumeSystemFromMostRecentState string
  | SaveInputProfile QString
  | ReloadGameSettings
  | ReloadInputBindings
  | StopThread
  | Mutate mutation

fun call :: "thread \<Rightarrow> operation \<Rightarrow> bridge \<Rightarrow> error + bridge" where
  "call th (Slot c) s = slot th c s"
| "call th SynchronousPowerOffSystem s = synchronousPowerOffSystem th s"
| "call th (RunLaterOp f) s = RunLater f s"
| "call th (RefreshGameList ic idb) s = refreshGameList th ic idb s"
| "call th (ResumeSystemFromMostRecentState f) s = resumeSystemFromMostRecentState th f s"
| "call th (SaveInputProfile n) s = Inl (Panic ''Fixme'')"
| "call th ReloadGameSettings s = Inl (Panic ''IMPLEMENT ME'')"
| "call th ReloadInputBindings s = Inl (Panic ''IMPLEMENT ME'')"
| "call th StopThread s = stopThread th s"
| "call th (Mutate m) s = Inr (snd (mutate th m s))"

text \<open>The operations written in the pattern
  \<open>if (!isOnWorkerThread()) { invokeMethod(...); return; } body\<close>.\<close>

fun marshalled :: "operation \<Rightarrow> bool" where
  "marshalled (Slot c) = (c \<noteq> doStopThread \<and> c \<noteq> quit)"
| "marshalled SynchronousPowerOffSystem = True"
| "marshalled (RunLaterOp f) = True"
| "marshalled x = False"

text \<open>What the calling thread does once the call is posted: return, stay inside the blocking
  \<open>invokeMethod\<close> until the slot has returned, or poll the completion event.\<close>

datatype waiting = Returns | BlockedInInvoke | PollsEvent

fun caller_waits :: "operation \<Rightarrow> waiting" where
  "caller_waits (Slot (executeOnEmulationThread callback wait)) =
     (if wait then PollsEvent else Returns)"
| "caller_waits (Slot c) =
     (if connection_of c = BlockingQueuedConnection then BlockedInInvoke else Returns)"
| "caller_waits SynchronousPowerOffSystem = BlockedInInvoke"
| "caller_waits x = Returns"

subsection \<open>The worker's event loop\<close>

text \<open>
  A posted call runs on the worker thread; a blocking-queued call releases its caller when
  the slot has returned.
\<close>

definition dispatch :: "op \<times> connection \<Rightarrow> bridge \<Rightarrow> error + bridge" where
  "dispatch p s =
     bindE (slot WorkerThread (fst p) (record_event WorkerThread (Dispatch (fst p)) s))
       (\<lambda>s1. Inr (if snd p = BlockingQueuedConnection
                 then s1\<lparr>caller_released := Suc (caller_released s1)\<rparr> else s1))"

fun dispatch_all :: "(op \<times> connection) list \<Rightarrow> bridge \<Rightarrow> error + bridge" where
  "dispatch_all [] s = Inr s"
| "dispatch_all (p # ps) s = bindE (dispatch p s) (dispatch_all ps)"

text \<open>\<open>QEventLoop::processEvents(AllEvents)\<close>: the posted calls are taken off the queue and
  run in the order they were posted. Timer events depend on real time and are left out.\<close>

definition processEvents :: "bridge \<Rightarrow> error + bridge" where
  "processEvents s = dispatch_all (posted s) (s\<lparr>posted := []\<rparr>)"

text \<open>\<open>QEventLoop::exec()\<close>: clears the exit flag, processes events, and returns once
  \<open>quit()\<close> was called; with nothing left to process and no \<open>quit()\<close> the thread waits.\<close>

datatype loop_status = Continue | Parked

definition QEventLoop_exec :: "bridge \<Rightarrow> error + (loop_status \<times> bridge)" where
  "QEventLoop_exec s =
     bindE (processEvents (s\<lparr>loop_exit := False\<rparr>))
       (\<lambda>s1. Inr (if loop_exit s1 then Continue else Parked, s1))"

text \<open>What the end of an iteration is to do, in the words of the specification: every
  queued command is executed on the worker thread, in the order queued, each against the
  state the one before it left. Executing a command runs the body of its operation; a
  blocking-queued command then releases its caller.\<close>

fun executed_in_order :: "(op \<times> connection) list \<Rightarrow> bridge \<Rightarrow> error + bridge" where
  "executed_in_order [] s = Inr s"
| "executed_in_order ((c, conn) # cs) s =
     bindE (body WorkerThread c (record_event WorkerThread (Dispatch c) s))
       (\<lambda>s1. executed_in_order cs
               (if conn = BlockingQueuedConnection
                then s1\<lparr>caller_released := Suc (caller_released s1)\<rparr> else s1))"

subsection \<open>The run-loop of \<open>threadEntryPoint\<close>\<close>

text \<open>The branch taken when \<open>System::IsRunning()\<close>.\<close>

definition active_steps :: "bridge \<Rightarrow> error + bridge" where
  "active_steps s =
     (let s1 = record_event WorkerThread
                 (if m_display_all_frames s then System_RunFrame else System_RunFrames) s;
          s2 = record_event WorkerThread InputManager_PollSources s1
      in bindE (if m_frame_step_request s2
                then PauseSystem WorkerThread True (s2\<lparr>m_frame_step_request := False\<rparr>)
                else Inr s2)
           (\<lambda>s3. bindE (renderDisplay WorkerThread s3)
              (\<lambda>s4. let s5 = record_event WorkerThread System_UpdatePerformanceCounters s4
                    in Inr (if m_throttler_enabled s5
                            then record_event WorkerThread System_Throttle s5 else s5))))"

text \<open>The end of an iteration that did not \<open>continue\<close>.\<close>

definition end_of_iteration :: "bridge \<Rightarrow> error + (loop_status \<times> bridge)" where
  "end_of_iteration s =
     bindE (processEvents s) (\<lambda>s1. Inr (Continue, record_event WorkerThread PollAndUpdate s1))"

definition loop_iteration :: "bridge \<Rightarrow> error + (loop_status \<times> bridge)" where
  "loop_iteration s =
     (if system s = Running then bindE (active_steps s) end_of_iteration
      else if \<not> FullscreenUI_IsInitialized s \<or> system s = Shutdown then QEventLoop_exec s
      else bindE (renderDisplay WorkerThread s) end_of_iteration)"

datatype loop_result = Exited | Waiting | OutOfFuel

text \<open>\<open>while (!m_shutdown_flag.load())\<close>, with fuel: the loop ends when the flag is seen,
  stops when \<open>exec()\<close> waits for a call to be posted, or runs out of fuel.\<close>

fun run_loop :: "nat \<Rightarrow> bridge \<Rightarrow> error + (loop_result \<times> bridge)" where
  "run_loop 0 s = (if m_shutdown_flag s then Inr (Exited, s) else Inr (OutOfFuel, s))"
| "run_loop (Suc n) s =
     (if m_shutdown_flag s then Inr (Exited, s)
      else bindE (loop_iteration s)
             (\<lambda>(st, s1). if st = Parked then Inr (Waiting, s1) else run_loop n s1))"

definition shutdownOnThread :: "bridge \<Rightarrow> bridge" where
  "shutdownOnThread s =
     record_event WorkerThread CommonHostInterface_Shutdown
       (s\<lparr>m_background_controller_polling_timer := None\<rparr>)"

text \<open>The code of \<open>threadEntryPoint\<close> after the loop.\<close>

definition teardown :: "bridge \<Rightarrow> error + bridge" where
  "teardown s =
     (let s1 = shutdownOnThread s
      in case s_settings_save_timer s1 of
           None \<Rightarrow> Inr s1
         | Some t \<Rightarrow> SaveSettings WorkerThread (s1\<lparr>s_settings_save_timer := None\<rparr>))"

definition threadEntryPoint ::
  "declarations \<Rightarrow> nat \<Rightarrow> bridge \<Rightarrow> error + (loop_result \<times> bridge)" where
  "threadEntryPoint decls fuel s =
     bindE (initializeOnThread decls WorkerThread s)
       (\<lambda>(result, s1).
          bindE (run_loop fuel (record_event WorkerThread (InitResult result) s1))
            (\<lambda>(r, s2). if r = Exited then bindE (teardown s2) (\<lambda>s3. Inr (Exited, s3))
                        else Inr (r, s2)))"

subsection \<open>A caller waiting for a posted call\<close>

text \<open>
  The UI thread inside a call, and the worker thread taking posted calls off its queue,
  scheduled in any order. One turn of the UI thread is one test of its wait:
  \<open>while (!m_worker_thread_sync_execute_done.TryWait(10)) qApp->processEvents(...)\<close>
  followed by \<open>Reset()\<close> for \<open>executeOnEmulationThread\<close>, and the wait on the call's
  semaphore inside the blocking \<open>invokeMethod\<close> otherwise.

  Modelled from the spec: the event class of \<open>m_worker_thread_sync_execute_done\<close> is not in
  this file. The spec: \<open>Signal()\<close> releases, \<open>Wait(timeout)\<close> is true if signalled within the
  timeout, \<open>Reset()\<close> clears.

  The callback handed to \<open>executeOnEmulationThread\<close> is a \<open>std::function\<close> of which this
  file knows nothing; \<open>asks\<close> says which callbacks need the UI thread. Such a callback puts
  a request to the UI thread and goes on when the UI thread has processed it. The worker is
  then inside the call (\<open>InCallback\<close>, with the call and whether the request was answered);
  every other posted call runs in one turn of the worker.
\<close>

datatype ui_pc = InInvoke nat | Polls | Returned

datatype worker_pc = Idle | InCallback "op \<times> connection" bool

type_synonym config = "ui_pc \<times> worker_pc \<times> bridge"

definition asks_ui :: "(nat \<Rightarrow> bool) \<Rightarrow> op \<times> connection \<Rightarrow> bool" where
  "asks_ui asks p =
     (case fst p of executeOnEmulationThread callback wait \<Rightarrow> asks callback | _ \<Rightarrow> False)"

fun in_progress :: "worker_pc \<Rightarrow> (op \<times> connection) list" where
  "in_progress Idle = []"
| "in_progress (InCallback p answered) = [p]"

fun ui_answers :: "worker_pc \<Rightarrow> worker_pc" where
  "ui_answers Idle = Idle"
| "ui_answers (InCallback p answered) = InCallback p True"

text \<open>The number of the semaphore of a blocking-queued call that has just been posted: the
  semaphores released so far, and one for each blocking-queued call not yet returned.\<close>

definition semaphore_of :: "worker_pc \<Rightarrow> bridge \<Rightarrow> nat" where
  "semaphore_of w s = caller_released s + blocking_calls (in_progress w @ posted s)"

fun ui_turn :: "config \<Rightarrow> config" where
  "ui_turn (Returned, w, s) = (Returned, w, s)"
| "ui_turn (InInvoke n, w, s) =
     (if n \<le> caller_released s then (Returned, w, s) else (InInvoke n, w, s))"
| "ui_turn (Polls, w, s) =
     (if m_worker_thread_sync_execute_done s
      then (Returned, w, s\<lparr>m_worker_thread_sync_execute_done := False\<rparr>)
      else (Polls, ui_answers w, record_event UIThread UI_processEvents s))"

fun worker_turn :: "(nat \<Rightarrow> bool) \<Rightarrow> config \<Rightarrow> error + config" where
  "worker_turn asks (u, Idle, s) =
     (case posted s of
        [] \<Rightarrow> Inr (u, Idle, s)
      | p # ps \<Rightarrow>
          if asks_ui asks p
          then Inr (u, InCallback p False,
                 record_events WorkerThread [Dispatch (fst p), AsksUIThread]
                   (s\<lparr>posted := ps\<rparr>))
          else bindE (dispatch p (s\<lparr>posted := ps\<rparr>)) (\<lambda>s1. Inr (u, Idle, s1)))"
| "worker_turn asks (u, InCallback p answered, s) =
     (if \<not> answered then Inr (u, InCallback p False, s)
      else bindE (slot WorkerThread (fst p) s)
             (\<lambda>s1. Inr (u, Idle,
                     if snd p = BlockingQueuedConnection
                     then s1\<lparr>caller_released := Suc (caller_released s1)\<rparr> else s1)))"

fun run_schedule :: "(nat \<Rightarrow> bool) \<Rightarrow> thread list \<Rightarrow> config \<Rightarrow> error + config" where
  "run_schedule asks [] c = Inr c"
| "run_schedule asks (UIThread # ts) c = run_schedule asks ts (ui_turn c)"
| "run_schedule asks (WorkerThread # ts) c = bindE (worker_turn asks c) (run_schedule asks ts)"

text \<open>The call itself, made while the worker is at \<open>w\<close>: the operation posts, and the caller
  returns, waits on the semaphore of its call, or enters the polling loop.\<close>

definition begin_call :: "operation \<Rightarrow> worker_pc \<times> bridge \<Rightarrow> error + config" where
  "begin_call x c =
     bindE (call UIThread x (snd c))
       (\<lambda>s1. Inr (case caller_waits x of
                     Returns \<Rightarrow> Returned
                   | BlockedInInvoke \<Rightarrow> InInvoke (semaphore_of (fst c) s1)
                   | PollsEvent \<Rightarrow> Polls,
                   fst c, s1))"

definition dispatches :: "(thread \<times> event) list \<Rightarrow> op list" where
  "dispatches tr = concat (map (\<lambda>(th, e). case e of Dispatch c \<Rightarrow> [c] | _ \<Rightarrow> []) tr)"

definition ui_pumps :: "(thread \<times> event) list \<Rightarrow> nat" where
  "ui_pumps tr = length (filter (\<lambda>x. x = (UIThread, UI_processEvents)) tr)"

text \<open>The calls the worker has still to return from: the one it is inside, and the queue.\<close>

definition unfinished :: "config \<Rightarrow> (op \<times> connection) list" where
  "unfinished c = in_progress (fst (snd c)) @ posted (snd (snd c))"

definition waited :: "op \<times> connection \<Rightarrow> bool" where
  "waited p = (case fst p of executeOnEmulationThread callback wait \<Rightarrow> wait | _ \<Rightarrow> False)"

text \<open>The two threads taking turns, the worker first; a run that was aborted by a failed
  assertion or in which the caller has returned; and a bound on the turns that takes.\<close>

fun round_robin :: "nat \<Rightarrow> thread list" where
  "round_robin 0 = []"
| "round_robin (Suc n) = WorkerThread # UIThread # round_robin n"

definition returned_or_aborted :: "error + config \<Rightarrow> bool" where
  "returned_or_aborted r = (case r of Inl e \<Rightarrow> True | Inr c \<Rightarrow> fst c = Returned)"

definition remaining_work :: "config \<Rightarrow> nat" where
  "remaining_work c =
     2 * length (posted (snd (snd c)))
       + (case fst (snd c) of Idle \<Rightarrow> 0 | InCallback p answered \<Rightarrow> if answered then 1 else 2)"

subsection \<open>A call written as its statements\<close>








subsection \<open>What running on the worker thread may do\<close>

text \<open>Emulation stepping, the dispatch of a posted call and the UI thread's own event
  processing are the events singled out; every other event is \<open>plain\<close>.\<close>

fun stepping :: "event \<Rightarrow> bool" where
  "stepping System_RunFrame = True"
| "stepping System_RunFrames = True"
| "stepping e = False"

fun plain :: "event \<Rightarrow> bool" where
  "plain (Dispatch c) = False"
| "plain System_RunFrame = False"
| "plain System_RunFrames = False"
| "plain UI_processEvents = False"
| "plain e = True"

definition worker_event :: "thread \<times> event \<Rightarrow> bool" where
  "worker_event x = (fst x = WorkerThread \<and> plain (snd x))"

text \<open>\<open>worker_effect s s'\<close>: from \<open>s\<close> to \<open>s'\<close> nothing was posted, no blocked caller was
  released, the completion event was not touched, and the trace grew by plain events of the
  worker thread only.\<close>

definition worker_effect :: "bridge \<Rightarrow> bridge \<Rightarrow> bool" where
  "worker_effect s s' =
     (posted s' = posted s \<and> caller_released s' = caller_released s
      \<and> m_worker_thread_sync_execute_done s' = m_worker_thread_sync_execute_done s
      \<and> (\<exists>es. trace s' = trace s @ es \<and> list_all worker_event es))"

subsection \<open>Calls of the UI thread interleaved with the run-loop\<close>

text \<open>The UI thread calling operations and the worker thread running iterations of its loop,
  in any order.\<close>

datatype action = UICall operation | WorkerIteration

fun run_actions :: "action list \<Rightarrow> bridge \<Rightarrow> error + bridge" where
  "run_actions [] s = Inr s"
| "run_actions (UICall x # acts) s = bindE (call UIThread x s) (run_actions acts)"
| "run_actions (WorkerIteration # acts) s =
     bindE (loop_iteration s) (\<lambda>(st, s1). run_actions acts s1)"

text \<open>Actions in which every call of the UI thread is a marshalled operation.\<close>

fun marshalled_action :: "action \<Rightarrow> bool" where
  "marshalled_action (UICall x) = marshalled x"
| "marshalled_action WorkerIteration = True"

text \<open>The call an operation posts.\<close>

fun posted_call :: "operation \<Rightarrow> op \<times> connection" where
  "posted_call (Slot c) = (c, connection_of c)"
| "posted_call SynchronousPowerOffSystem = (powerOffSystem, BlockingQueuedConnection)"
| "posted_call (RunLaterOp f) = (executeOnEmulationThread f False, QueuedConnection)"
| "posted_call x = (quit, QueuedConnection)"

text \<open>The operations that cancel a pending startup before they post.\<close>

definition cancels_startup :: "operation \<Rightarrow> bool" where
  "cancels_startup x =
     (x = Slot powerOffSystem \<or> x = Slot powerOffSystemWithoutSaving
      \<or> x = SynchronousPowerOffSystem)"

subsection \<open>A concrete starting state\<close>

text \<open>The bridge right after construction: no display, no system, nothing posted, no save
  timer, an empty store, a writable settings file that does not exist yet.\<close>

definition initial_bridge :: bridge where
  "initial_bridge =
     \<lparr>m_display = None,
      m_is_fullscreen = False,
      m_is_exclusive_fullscreen = False,
      m_is_rendering_to_main = False,
      m_lost_exclusive_fullscreen = False,
      m_display_all_frames = True,
      m_frame_step_request = False,
      m_throttler_enabled = True,
      m_shutdown_flag = False,
      m_worker_thread_sync_execute_done = False,
      m_background_controller_polling_timer = None,
      posted = [],
      loop_exit = False,
      s_base_settings_interface = Map.empty,
      s_settings_save_timer = None,
      settings_file = None,
      file_writable = True,
      system = Shutdown,
      startup_cancelled = 0,
      FullscreenUI_IsInitialized = False,
      core_succeeds = (\<lambda>c. True),
      created_display = None,
      caller_released = 0,
      trace = []\<rparr>"

text \<open>A display that works and never reports exclusive fullscreen; a running system on it.\<close>

definition working_display :: HostDisplay where
  "working_display =
     \<lparr>widget_created = True, HasRenderDevice = True, MakeRenderContextCurrent = True,
      InitializeRenderDevice = True, ImGuiManager_Initialize = True,
      CreateHostDisplayResources = True, IsFullscreen = (\<lambda>fullscreen. False)\<rparr>"

definition running_bridge :: bridge where
  "running_bridge =
     initial_bridge\<lparr>m_display := Some working_display, system := Running,
                    m_background_controller_polling_timer := Some False\<rparr>"

definition fullscreen_bridge :: bridge where
  "fullscreen_bridge = running_bridge\<lparr>m_is_fullscreen := True\<rparr>"

text \<open>A burst of three settings changes made on the UI thread.\<close>

definition burst3 :: "(thread \<times> mutation) list" where
  "burst3 =
     [(UIThread, SetBaseBoolSettingValue ''Main'' ''StartPaused'' True),
      (UIThread, SetBaseIntSettingValue ''GPU'' ''ResolutionScale'' 4),
      (UIThread, SetBaseBoolSettingValue ''Main'' ''StartPaused'' False)]"




text \<open>A running system with two calls posted: pause, then load state from slot 1.\<close>

definition ordering_bridge :: bridge where
  "ordering_bridge =
     running_bridge\<lparr>posted := [(pauseSystem True False, QueuedConnection),
                               (loadStateSlot False 1, QueuedConnection)]\<rparr>"

definition ordering_trace :: "(thread \<times> event) list" where
  "ordering_trace = map (Pair WorkerThread)
     [System_RunFrame, InputManager_PollSources, RenderOSD, DisplayRender, ImGuiNewFrame,
      System_UpdatePerformanceCounters, System_Throttle,
      Dispatch (pauseSystem True False), Core (pauseSystem True False),
      CommonHostInterface_OnSystemPaused True, Emit (emulationPaused True),
      RenderOSD, DisplayRender, ImGuiNewFrame,
      Dispatch (loadStateSlot False 1), Core (loadStateSlot False 1), PollAndUpdate]"

text \<open>\<open>ordering_bridge\<close> after the steps of its iteration, with the queue taken; and
  after the pause was executed.\<close>

definition ordering_stepped :: bridge where
  "ordering_stepped =
     running_bridge\<lparr>trace := map (Pair WorkerThread)
            [System_RunFrame, InputManager_PollSources, RenderOSD, DisplayRender, ImGuiNewFrame,
             System_UpdatePerformanceCounters, System_Throttle]\<rparr>"

definition ordering_paused :: bridge where
  "ordering_paused =
     running_bridge\<lparr>system := Paused, m_background_controller_polling_timer := Some True,
       trace := map (Pair WorkerThread)
            [System_RunFrame, InputManager_PollSources, RenderOSD, DisplayRender, ImGuiNewFrame,
             System_UpdatePerformanceCounters, System_Throttle,
             Dispatch (pauseSystem True False), Core (pauseSystem True False),
             CommonHostInterface_OnSystemPaused True, Emit (emulationPaused True),
             RenderOSD, DisplayRender, ImGuiNewFrame]\<rparr>"

text \<open>The initialised bridge with no system; the same after a burst of settings changes on
  the UI thread followed by \<open>stopThread()\<close>; and that state once the loop has seen the
  shutdown flag.\<close>

definition idle_bridge :: bridge where
  "idle_bridge = initial_bridge\<lparr>m_background_controller_polling_timer := Some True\<rparr>"

definition closing_bridge :: bridge where
  "closing_bridge =
     (snd (mutate_all burst3 idle_bridge))\<lparr>posted := [(doStopThread, QueuedConnection)]\<rparr>"

definition closing_exited :: bridge where
  "closing_exited =
     closing_bridge\<lparr>posted := [], m_shutdown_flag := True, loop_exit := True,
                    trace := trace closing_bridge @ [(WorkerThread, Dispatch doStopThread)]\<rparr>"


text \<open>The UI thread posts a pause; the worker then runs one iteration.\<close>

definition pause_then_iterate :: "action list" where
  "pause_then_iterate = [UICall (Slot (pauseSystem True False)), WorkerIteration]"

text \<open>\<open>setDefaultSettings()\<close> called on the UI thread of the idle bridge; the state after
  the worker's loop has run the posted call; and that state after the three settings
  changes of \<open>burst3\<close>.\<close>

definition reset_posted :: bridge where
  "reset_posted = idle_bridge\<lparr>posted := [(setDefaultSettings, QueuedConnection)]\<rparr>"

definition reset_dispatched :: bridge where
  "reset_dispatched =
     idle_bridge\<lparr>s_settings_save_timer :=
                   Some \<lparr>singleShot = True, interval = 1000, thread_affinity = WorkerThread\<rparr>,
                 trace := map (Pair WorkerThread)
                   [Dispatch setDefaultSettings, CommonHostInterface_SetDefaultSettings,
                    QTimer_start 1000, Emit settingsResetToDefault]\<rparr>"

definition reset_then_burst :: bridge where
  "reset_then_burst =
     reset_dispatched\<lparr>s_base_settings_interface :=
                        [(''Main'', ''StartPaused'') \<mapsto> BoolValue False,
                         (''GPU'', ''ResolutionScale'') \<mapsto> IntValue 4]\<rparr>"


section \<open>Properties\<close>

lemma bindE_Inr: "bindE m f = Inr y \<longleftrightarrow> (\<exists>x. m = Inr x \<and> f x = Inr y)"
  by (cases m) (auto simp: bindE_def)

subsection \<open>Fullscreen handling\<close>

lemma SetFullscreen_same: "SetFullscreen th (m_is_fullscreen s) s = Inr (True, s)"
  by (simp add: SetFullscreen_def)

lemma updateDisplayState_frame:
  "updateDisplayState th s = Inr s' \<Longrightarrow>
     s' = s\<lparr>trace := trace s', m_is_exclusive_fullscreen := m_is_exclusive_fullscreen s',
            posted := posted s'\<rparr>"
  by (auto simp: updateDisplayState_def bindE_def Let_def record_event_def record_events_def
      redrawDisplayWindow_slot_def renderDisplay_def invokeMethod_def
      split: option.splits if_splits sum.splits)

lemma updateDisplayState_fullscreen:
  "updateDisplayState th s = Inr s' \<Longrightarrow> m_is_fullscreen s' = m_is_fullscreen s"
  by (drule updateDisplayState_frame) (erule ssubst, simp)

lemma SetFullscreen_sets:
  "SetFullscreen th e s = Inr (r, s') \<Longrightarrow> r \<and> m_is_fullscreen s' = e"
  by (auto simp: SetFullscreen_def bindE_def dest!: updateDisplayState_fullscreen split: if_splits sum.splits)

lemma SetFullscreen_frame:
  assumes "SetFullscreen th e s = Inr (r, s')"
  shows "s' = s\<lparr>m_is_fullscreen := e, trace := trace s',
            m_is_exclusive_fullscreen := m_is_exclusive_fullscreen s', posted := posted s'\<rparr>"
proof (cases "m_is_fullscreen s = e")
  case True
  with assms have "s' = s" by (simp add: SetFullscreen_def)
  with True show ?thesis by simp
next
  case False
  with assms have u: "updateDisplayState th (s\<lparr>m_is_fullscreen := e\<rparr>) = Inr s'"
    by (auto simp: SetFullscreen_def bindE_def split: sum.splits)
  from updateDisplayState_frame[OF u] show ?thesis by simp
qed

text \<open>
  C10. \<open>SetFullscreen(enabled)\<close> is idempotent: when the requested state is the current
  fullscreen flag it returns true and leaves the state as it is, no display update made; and
  for every starting state, calling it twice with the same argument gives the state and the
  result of calling it once (a panic during the display update included).
\<close>

theorem SetFullscreen_idempotent:
  "SetFullscreen th (m_is_fullscreen s) s = Inr (True, s)
   \<and> bindE (SetFullscreen th enabled s) (\<lambda>(r, s'). SetFullscreen th enabled s')
       = SetFullscreen th enabled s"
proof (cases "SetFullscreen th enabled s")
  case (Inl a)
  then show ?thesis by (simp add: bindE_def SetFullscreen_same)
next
  case (Inr p)
  obtain r s' where p: "p = (r, s')" by (cases p)
  from Inr p have rs: "r \<and> m_is_fullscreen s' = enabled" using SetFullscreen_sets by blast
  then have "SetFullscreen th enabled s' = Inr (True, s')" using SetFullscreen_same by blast
  with Inr p rs show ?thesis by (simp add: bindE_def SetFullscreen_same)
qed

lemma SetFullscreen_running:
  "SetFullscreen WorkerThread True running_bridge =
     Inr (True, running_bridge\<lparr>m_is_fullscreen := True,
        trace := map (Pair WorkerThread)
          [DoneRenderContextCurrent, Emit (updateDisplayRequested True False), OnHostDisplayResized,
           UpdateSoftwareCursor, RenderOSD, DisplayRender, ImGuiNewFrame, UpdateSpeedLimiterState]\<rparr>)"
  by (simp add: SetFullscreen_def running_bridge_def initial_bridge_def working_display_def
      updateDisplayState_def bindE_def Let_def record_event_def record_events_def
      redrawDisplayWindow_slot_def renderDisplay_def isOnWorkerThread_def)

theorem SetFullscreen_idempotent_witness:
  "bindE (SetFullscreen WorkerThread True running_bridge)
         (\<lambda>(r, s'). SetFullscreen WorkerThread True s')
     = Inr (True, running_bridge\<lparr>m_is_fullscreen := True,
        trace := map (Pair WorkerThread)
          [DoneRenderContextCurrent, Emit (updateDisplayRequested True False), OnHostDisplayResized,
           UpdateSoftwareCursor, RenderOSD, DisplayRender, ImGuiNewFrame, UpdateSpeedLimiterState]\<rparr>)"
  using SetFullscreen_idempotent [of WorkerThread running_bridge True]
  by (simp add: SetFullscreen_running)


lemma ReportError_cases:
  assumes "ReportError th message s = Inr s'"
  shows "if m_is_fullscreen s
         then (\<exists>s2. SetFullscreen th False (record_event th (HostInterface_ReportError message) s)
                       = Inr (True, s2)
                  \<and> \<not> m_is_fullscreen s2
                  \<and> SetFullscreen th True (record_event th (Emit (errorReported message)) s2)
                       = Inr (True, s'))
         else s' = s\<lparr>trace := trace s @ [(th, HostInterface_ReportError message),
                                           (th, Emit (errorReported message))]\<rparr>"
proof (cases "m_is_fullscreen s")
  case False
  with assms show ?thesis
    by (simp add: ReportError_def Let_def record_event_def bindE_def)
next
  case True
  let ?s1 = "record_event th (HostInterface_ReportError message) s"
  from True have fs1: "m_is_fullscreen ?s1" by (simp add: record_event_def)
  from assms fs1 obtain r2 s2 where a: "SetFullscreen th False ?s1 = Inr (r2, s2)"
    by (cases "SetFullscreen th False ?s1") (auto simp: ReportError_def Let_def bindE_def)
  from SetFullscreen_sets[OF a] have r2: "r2" and nf: "\<not> m_is_fullscreen s2" by auto
  let ?s3 = "record_event th (Emit (errorReported message)) s2"
  from assms fs1 a obtain r4 s4 where b: "SetFullscreen th True ?s3 = Inr (r4, s4)"
    by (cases "SetFullscreen th True ?s3") (auto simp: ReportError_def Let_def bindE_def)
  from SetFullscreen_sets[OF b] have r4: "r4" by auto
  from assms fs1 a b have "s' = s4" by (simp add: ReportError_def Let_def bindE_def)
  with a b r2 r4 nf True show ?thesis by auto
qed

lemma ConfirmMessage_cases:
  assumes "ConfirmMessage th answer message s = Inr (r, s')"
  shows "r = answer message \<and>
        (if m_is_fullscreen s
         then (\<exists>s2. SetFullscreen th False s = Inr (True, s2)
                  \<and> \<not> m_is_fullscreen s2
                  \<and> SetFullscreen th True (record_event th (Emit (messageConfirmed message)) s2)
                       = Inr (True, s'))
         else s' = s\<lparr>trace := trace s @ [(th, Emit (messageConfirmed message))]\<rparr>)"
proof (cases "m_is_fullscreen s")
  case False
  with assms show ?thesis
    by (auto simp add: ConfirmMessage_def Let_def record_event_def bindE_def)
next
  case True
  from assms True obtain r2 s2 where a: "SetFullscreen th False s = Inr (r2, s2)"
    by (cases "SetFullscreen th False s") (auto simp: ConfirmMessage_def Let_def bindE_def)
  from SetFullscreen_sets[OF a] have r2: "r2" and nf: "\<not> m_is_fullscreen s2" by auto
  let ?s3 = "record_event th (Emit (messageConfirmed message)) s2"
  from assms True a obtain r4 s4 where b: "SetFullscreen th True ?s3 = Inr (r4, s4)"
    by (cases "SetFullscreen th True ?s3") (auto simp: ConfirmMessage_def Let_def bindE_def)
  from SetFullscreen_sets[OF b] have r4: "r4" by auto
  from assms True a b have "s' = s4 \<and> r = answer message"
    by (simp add: ConfirmMessage_def Let_def bindE_def)
  with a b r2 r4 nf True show ?thesis by auto
qed

lemma leave_and_restore:
  assumes a: "SetFullscreen th False s1 = Inr (True, s2)"
      and b: "SetFullscreen th True (record_event th e s2) = Inr (True, s')"
      and f: "m_is_fullscreen s1"
  shows "m_is_fullscreen s' \<and>
         s' = s1\<lparr>trace := trace s', m_is_exclusive_fullscreen := m_is_exclusive_fullscreen s',
                 posted := posted s'\<rparr>"
proof -
  note fa = SetFullscreen_frame[OF a]
  note fb = SetFullscreen_frame[OF b]
  have "s' = (record_event th e (s1\<lparr>m_is_fullscreen := False, trace := trace s2,
            m_is_exclusive_fullscreen := m_is_exclusive_fullscreen s2, posted := posted s2\<rparr>))
             \<lparr>m_is_fullscreen := True, trace := trace s',
            m_is_exclusive_fullscreen := m_is_exclusive_fullscreen s', posted := posted s'\<rparr>"
    using fa fb by simp
  then have "s' = s1\<lparr>m_is_fullscreen := True, trace := trace s',
            m_is_exclusive_fullscreen := m_is_exclusive_fullscreen s', posted := posted s'\<rparr>"
    by (simp add: record_event_def)
  then have e: "s' = (s1\<lparr>m_is_fullscreen := True\<rparr>)\<lparr>trace := trace s',
            m_is_exclusive_fullscreen := m_is_exclusive_fullscreen s', posted := posted s'\<rparr>"
    by simp
  from f have "s1\<lparr>m_is_fullscreen := True\<rparr> = s1" by simp
  with e have e': "s' = s1\<lparr>trace := trace s',
            m_is_exclusive_fullscreen := m_is_exclusive_fullscreen s', posted := posted s'\<rparr>"
    by simp
  from SetFullscreen_sets[OF b] have "m_is_fullscreen s'" by simp
  with e' show ?thesis by simp
qed


text \<open>
  C9. For every call of \<open>ReportError\<close> or \<open>ConfirmMessage\<close> that returns, the fullscreen flag
  after the call is the flag before it. A bridge that was fullscreen leaves fullscreen, emits
  the notification while not fullscreen, and restores fullscreen; a bridge that was not only
  gains the notification in its trace. The notification changes nothing but the trace: what
  else may differ afterwards is the exclusive-fullscreen flag and the posted queue, both
  written by the two display updates.
\<close>

theorem notifications_keep_fullscreen:
  "(\<forall>s'. ReportError th message s = Inr s' \<longrightarrow>
        m_is_fullscreen s' = m_is_fullscreen s
      \<and> s' = s\<lparr>trace := trace s', m_is_exclusive_fullscreen := m_is_exclusive_fullscreen s',
               posted := posted s'\<rparr>
      \<and> (if m_is_fullscreen s
         then (\<exists>s2. SetFullscreen th False (record_event th (HostInterface_ReportError message) s)
                       = Inr (True, s2)
                  \<and> \<not> m_is_fullscreen s2
                  \<and> SetFullscreen th True (record_event th (Emit (errorReported message)) s2)
                       = Inr (True, s'))
         else s' = s\<lparr>trace := trace s @ [(th, HostInterface_ReportError message),
                                           (th, Emit (errorReported message))]\<rparr>))
 \<and> (\<forall>r s'. ConfirmMessage th answer message s = Inr (r, s') \<longrightarrow>
        m_is_fullscreen s' = m_is_fullscreen s
      \<and> r = answer message
      \<and> s' = s\<lparr>trace := trace s', m_is_exclusive_fullscreen := m_is_exclusive_fullscreen s',
               posted := posted s'\<rparr>
      \<and> (if m_is_fullscreen s
         then (\<exists>s2. SetFullscreen th False s = Inr (True, s2)
                  \<and> \<not> m_is_fullscreen s2
                  \<and> SetFullscreen th True (record_event th (Emit (messageConfirmed message)) s2)
                       = Inr (True, s'))
         else s' = s\<lparr>trace := trace s @ [(th, Emit (messageConfirmed message))]\<rparr>))"
proof (intro conjI allI impI)
  fix s' assume r: "ReportError th message s = Inr s'"
  note c = ReportError_cases[OF r]
  show "if m_is_fullscreen s
         then (\<exists>s2. SetFullscreen th False (record_event th (HostInterface_ReportError message) s)
                       = Inr (True, s2)
                  \<and> \<not> m_is_fullscreen s2
                  \<and> SetFullscreen th True (record_event th (Emit (errorReported message)) s2)
                       = Inr (True, s'))
         else s' = s\<lparr>trace := trace s @ [(th, HostInterface_ReportError message),
                                           (th, Emit (errorReported message))]\<rparr>"
    by (rule c)
  have both: "m_is_fullscreen s' = m_is_fullscreen s
      \<and> s' = s\<lparr>trace := trace s', m_is_exclusive_fullscreen := m_is_exclusive_fullscreen s',
               posted := posted s'\<rparr>"
  proof (cases "m_is_fullscreen s")
    case False
    with c have "s' = s\<lparr>trace := trace s @ [(th, HostInterface_ReportError message),
                                           (th, Emit (errorReported message))]\<rparr>" by simp
    then show ?thesis by simp
  next
    case True
    let ?s1 = "record_event th (HostInterface_ReportError message) s"
    from True c obtain s2 where a: "SetFullscreen th False ?s1 = Inr (True, s2)"
      and b: "SetFullscreen th True (record_event th (Emit (errorReported message)) s2) = Inr (True, s')"
      by auto
    from True have f: "m_is_fullscreen ?s1" by (simp add: record_event_def)
    from leave_and_restore[OF a b f] True show ?thesis by (simp add: record_event_def)
  qed
  from both show "m_is_fullscreen s' = m_is_fullscreen s" by simp
  from both show "s' = s\<lparr>trace := trace s', m_is_exclusive_fullscreen := m_is_exclusive_fullscreen s',
               posted := posted s'\<rparr>" by simp
next
  fix r s' assume r: "ConfirmMessage th answer message s = Inr (r, s')"
  note c = ConfirmMessage_cases[OF r]
  from c show "r = answer message" by simp
  from c show "if m_is_fullscreen s
         then (\<exists>s2. SetFullscreen th False s = Inr (True, s2)
                  \<and> \<not> m_is_fullscreen s2
                  \<and> SetFullscreen th True (record_event th (Emit (messageConfirmed message)) s2)
                       = Inr (True, s'))
         else s' = s\<lparr>trace := trace s @ [(th, Emit (messageConfirmed message))]\<rparr>" by simp
  have both: "m_is_fullscreen s' = m_is_fullscreen s
      \<and> s' = s\<lparr>trace := trace s', m_is_exclusive_fullscreen := m_is_exclusive_fullscreen s',
               posted := posted s'\<rparr>"
  proof (cases "m_is_fullscreen s")
    case False
    with c have "s' = s\<lparr>trace := trace s @ [(th, Emit (messageConfirmed message))]\<rparr>" by simp
    then show ?thesis by simp
  next
    case True
    from True c obtain s2 where a: "SetFullscreen th False s = Inr (True, s2)"
      and b: "SetFullscreen th True (record_event th (Emit (messageConfirmed message)) s2) = Inr (True, s')"
      by auto
    from leave_and_restore[OF a b True] True show ?thesis by simp
  qed
  from both show "m_is_fullscreen s' = m_is_fullscreen s" by simp
  from both show "s' = s\<lparr>trace := trace s', m_is_exclusive_fullscreen := m_is_exclusive_fullscreen s',
               posted := posted s'\<rparr>" by simp
qed

lemma ReportError_fullscreen:
  "ReportError WorkerThread ''disc read error'' fullscreen_bridge =
     Inr (fullscreen_bridge\<lparr>trace := map (Pair WorkerThread)
        [HostInterface_ReportError ''disc read error'',
         DoneRenderContextCurrent, Emit (updateDisplayRequested False False), OnHostDisplayResized,
         UpdateSoftwareCursor, RenderOSD, DisplayRender, ImGuiNewFrame, UpdateSpeedLimiterState,
         Emit (errorReported ''disc read error''),
         DoneRenderContextCurrent, Emit (updateDisplayRequested True False), OnHostDisplayResized,
         UpdateSoftwareCursor, RenderOSD, DisplayRender, ImGuiNewFrame, UpdateSpeedLimiterState]\<rparr>)"
  by (simp add: ReportError_def SetFullscreen_def fullscreen_bridge_def running_bridge_def
      initial_bridge_def working_display_def
      updateDisplayState_def bindE_def Let_def record_event_def record_events_def
      redrawDisplayWindow_slot_def renderDisplay_def isOnWorkerThread_def)

lemma ConfirmMessage_fullscreen:
  "ConfirmMessage WorkerThread (\<lambda>m. True) ''disc read error'' fullscreen_bridge =
     Inr (True, fullscreen_bridge\<lparr>trace := map (Pair WorkerThread)
        [DoneRenderContextCurrent, Emit (updateDisplayRequested False False), OnHostDisplayResized,
         UpdateSoftwareCursor, RenderOSD, DisplayRender, ImGuiNewFrame, UpdateSpeedLimiterState,
         Emit (messageConfirmed ''disc read error''),
         DoneRenderContextCurrent, Emit (updateDisplayRequested True False), OnHostDisplayResized,
         UpdateSoftwareCursor, RenderOSD, DisplayRender, ImGuiNewFrame, UpdateSpeedLimiterState]\<rparr>)"
  by (simp add: ConfirmMessage_def SetFullscreen_def fullscreen_bridge_def running_bridge_def
      initial_bridge_def working_display_def
      updateDisplayState_def bindE_def Let_def record_event_def record_events_def
      redrawDisplayWindow_slot_def renderDisplay_def isOnWorkerThread_def)

theorem notifications_keep_fullscreen_witness:
  "(\<exists>s'. ReportError WorkerThread ''disc read error'' fullscreen_bridge = Inr s'
        \<and> m_is_fullscreen s' \<and> m_is_fullscreen fullscreen_bridge)
 \<and> (\<exists>s'. ConfirmMessage WorkerThread (\<lambda>m. True) ''disc read error'' fullscreen_bridge = Inr (True, s')
        \<and> m_is_fullscreen s' \<and> m_is_fullscreen fullscreen_bridge)"
proof -
  have f: "m_is_fullscreen fullscreen_bridge" by (simp add: fullscreen_bridge_def)
  note t = notifications_keep_fullscreen
             [of WorkerThread "''disc read error''" fullscreen_bridge "\<lambda>m. True"]
  from t ReportError_fullscreen f have 1: "\<exists>s'. ReportError WorkerThread ''disc read error'' fullscreen_bridge = Inr s'
        \<and> m_is_fullscreen s' \<and> m_is_fullscreen fullscreen_bridge"
    by blast
  from t ConfirmMessage_fullscreen f have 2: "\<exists>s'. ConfirmMessage WorkerThread (\<lambda>m. True) ''disc read error'' fullscreen_bridge = Inr (True, s')
        \<and> m_is_fullscreen s' \<and> m_is_fullscreen fullscreen_bridge"
    by blast
  from 1 2 show ?thesis by blast
qed

subsection \<open>The debounced settings save\<close>

lemma apply_to_store_unchanged: "apply_to_store m st = (False, st') \<Longrightarrow> st' = st"
  by (cases m) (auto split: if_splits)

lemma mutate_pending:
  assumes "s_settings_save_timer s = Some t" "mutate th m s = (r, s')"
  shows "s_settings_save_timer s' = Some t \<and> trace s' = trace s
       \<and> settings_file s' = settings_file s \<and> file_writable s' = file_writable s
       \<and> s_base_settings_interface s' = snd (apply_to_store m (s_base_settings_interface s))"
  using assms
  by (auto simp: mutate_def QueueSettingsSave_def Let_def dest: apply_to_store_unchanged split: prod.splits if_splits)

lemma mutate_idle:
  assumes "s_settings_save_timer s = None" "mutate th m s = (r, s')"
  shows "r = fst (apply_to_store m (s_base_settings_interface s))
       \<and> (if r then s_settings_save_timer s' =
                    Some \<lparr>singleShot = True, interval = 1000, thread_affinity = th\<rparr>
               \<and> trace s' = trace s @ [(th, QTimer_start 1000)]
          else s_settings_save_timer s' = None \<and> trace s' = trace s)
       \<and> settings_file s' = settings_file s \<and> file_writable s' = file_writable s
       \<and> s_base_settings_interface s' = snd (apply_to_store m (s_base_settings_interface s))"
  using assms
  by (auto simp: mutate_def QueueSettingsSave_def Let_def record_event_def SETTINGS_SAVE_DELAY_def
      dest: apply_to_store_unchanged split: prod.splits if_splits)

lemma mutate_all_pending:
  assumes "s_settings_save_timer s = Some t" "mutate_all ms s = (rs, s')"
  shows "s_settings_save_timer s' = Some t \<and> trace s' = trace s
       \<and> settings_file s' = settings_file s \<and> file_writable s' = file_writable s
       \<and> s_base_settings_interface s' = final_store ms (s_base_settings_interface s)"
  using assms
proof (induction ms arbitrary: s rs s')
  case Nil
  then show ?case by (simp add: final_store_def)
next
  case (Cons a ms)
  obtain th m where a: "a = (th, m)" by (cases a)
  obtain r s1 where m1: "mutate th m s = (r, s1)" by (cases "mutate th m s")
  obtain rs1 s2 where m2: "mutate_all ms s1 = (rs1, s2)" by (cases "mutate_all ms s1")
  from Cons.prems a m1 m2 have s': "s' = s2" by simp
  from mutate_pending[OF Cons.prems(1) m1] have p1: "s_settings_save_timer s1 = Some t" 
     and rest: "trace s1 = trace s" "settings_file s1 = settings_file s" "file_writable s1 = file_writable s"
      "s_base_settings_interface s1 = snd (apply_to_store m (s_base_settings_interface s))" by auto
  from Cons.IH[OF p1 m2] rest s' a show ?case by (simp add: final_store_def)
qed

lemma mutate_all_idle:
  assumes "s_settings_save_timer s = None" "mutate_all ms s = (rs, s')"
  shows "(case first_change ms (s_base_settings_interface s) of
            Some th \<Rightarrow>
              s_settings_save_timer s' =
                Some \<lparr>singleShot = True, interval = 1000, thread_affinity = th\<rparr>
              \<and> trace s' = trace s @ [(th, QTimer_start 1000)]
          | None \<Rightarrow> s_settings_save_timer s' = None \<and> trace s' = trace s)
       \<and> settings_file s' = settings_file s \<and> file_writable s' = file_writable s
       \<and> s_base_settings_interface s' = final_store ms (s_base_settings_interface s)"
  using assms
proof (induction ms arbitrary: s rs s')
  case Nil
  then show ?case by (auto simp add: final_store_def)
next
  case (Cons a ms)
  obtain th m where a: "a = (th, m)" by (cases a)
  obtain r s1 where m1: "mutate th m s = (r, s1)" by (cases "mutate th m s")
  obtain rs1 s2 where m2: "mutate_all ms s1 = (rs1, s2)" by (cases "mutate_all ms s1")
  from Cons.prems a m1 m2 have s': "s' = s2" and rs: "rs = r # rs1" by auto
  note i1 = mutate_idle[OF Cons.prems(1) m1]
  show ?case
  proof (cases r)
    case True
    with i1 have t1: "s_settings_save_timer s1 =
        Some \<lparr>singleShot = True, interval = 1000, thread_affinity = th\<rparr>" by simp
    from mutate_all_pending[OF t1 m2] i1 True s' rs a show ?thesis
      by (auto simp add: final_store_def)
  next
    case False
    with i1 have t1: "s_settings_save_timer s1 = None" by simp
    from Cons.IH[OF t1 m2] i1 False s' rs a show ?thesis
      by (auto simp add: final_store_def split: option.splits)
  qed
qed

lemma QTimer_timeout_on_ui_thread:
  assumes "s_settings_save_timer s = Some t" "thread_affinity t = UIThread"
  shows "\<exists>s'. QTimer_timeout s = Inr s' \<and> s_settings_save_timer s' = None
      \<and> trace s' = trace s @ (UIThread, SettingsInterface_Save (s_base_settings_interface s))
           # (if file_writable s then [] else [(UIThread, Log_Error ''Failed to save settings.'')])
      \<and> settings_file s' = (if file_writable s then Some (s_base_settings_interface s) else settings_file s)
      \<and> s_base_settings_interface s' = s_base_settings_interface s"
  using assms
  by (auto simp: QTimer_timeout_def SaveSettings_def INISettingsInterface_Save_def Let_def
      isOnWorkerThread_def record_event_def split: prod.splits if_splits)

lemma QTimer_timeout_on_worker_thread:
  assumes "s_settings_save_timer s = Some t" "thread_affinity t = WorkerThread"
  shows "QTimer_timeout s = Inl (AssertionFailed ''Saving should happen on the UI thread.'')"
  using assms by (simp add: QTimer_timeout_def SaveSettings_def isOnWorkerThread_def)

text \<open>
  A burst of settings mutations that starts with no save timer and changes the store leaves
  exactly one timer, single-shot and of 1000 ms, started once in the whole burst by the first
  mutation that changed the store, on the thread that made it; nothing is saved during the
  burst. When that thread is the UI thread the timeout saves once, the store as the last
  mutation left it; when it is the worker thread the timeout fails the assertion of
  \<open>SaveSettings\<close> and saves nothing.
\<close>

lemma burst_arms_one_timer:
  assumes idle: "s_settings_save_timer s = None"
      and burst: "mutate_all ms s = (rs, s')"
      and changed: "first_change ms (s_base_settings_interface s) = Some th"
  shows "s_settings_save_timer s' =
           Some \<lparr>singleShot = True, interval = 1000, thread_affinity = th\<rparr>
       \<and> timer_starts s' = timer_starts s @ [(th, QTimer_start 1000)]
       \<and> saves s' = saves s
       \<and> s_base_settings_interface s' = final_store ms (s_base_settings_interface s)
       \<and> (th = UIThread \<longrightarrow>
            (\<exists>s''. QTimer_timeout s' = Inr s''
              \<and> s_settings_save_timer s'' = None
              \<and> saves s'' = saves s @
                   [(UIThread, SettingsInterface_Save (final_store ms (s_base_settings_interface s)))]
              \<and> timer_starts s'' = timer_starts s'
              \<and> settings_file s'' =
                   (if file_writable s then Some (final_store ms (s_base_settings_interface s))
                    else settings_file s)))
       \<and> (th = WorkerThread \<longrightarrow>
            QTimer_timeout s' = Inl (AssertionFailed ''Saving should happen on the UI thread.''))"
proof -
  from mutate_all_idle[OF idle burst] changed
  have timer: "s_settings_save_timer s' =
                 Some \<lparr>singleShot = True, interval = 1000, thread_affinity = th\<rparr>"
    and tr: "trace s' = trace s @ [(th, QTimer_start 1000)]"
    and fl: "settings_file s' = settings_file s" "file_writable s' = file_writable s"
    and st: "s_base_settings_interface s' = final_store ms (s_base_settings_interface s)"
    by simp_all
  from tr have starts: "timer_starts s' = timer_starts s @ [(th, QTimer_start 1000)]"
    by (simp add: timer_starts_def)
  from tr have sv: "saves s' = saves s" by (simp add: saves_def)
  have ui: "\<exists>s''. QTimer_timeout s' = Inr s''
              \<and> s_settings_save_timer s'' = None
              \<and> saves s'' = saves s @
                   [(UIThread, SettingsInterface_Save (final_store ms (s_base_settings_interface s)))]
              \<and> timer_starts s'' = timer_starts s'
              \<and> settings_file s'' =
                   (if file_writable s then Some (final_store ms (s_base_settings_interface s))
                    else settings_file s)" if th: "th = UIThread"
  proof -
    from timer th have a: "thread_affinity \<lparr>singleShot = True, interval = 1000, thread_affinity = th\<rparr> = UIThread"
      by simp
    from QTimer_timeout_on_ui_thread[OF timer a] obtain s'' where
      t: "QTimer_timeout s' = Inr s''" "s_settings_save_timer s'' = None"
      and tr'': "trace s'' = trace s' @ (UIThread, SettingsInterface_Save (s_base_settings_interface s'))
           # (if file_writable s' then [] else [(UIThread, Log_Error ''Failed to save settings.'')])"
      and f'': "settings_file s'' = (if file_writable s' then Some (s_base_settings_interface s') else settings_file s')"
      by blast
    from tr'' have "saves s'' = saves s' @ [(UIThread, SettingsInterface_Save (s_base_settings_interface s'))]"
      by (simp add: saves_def)
    moreover from tr'' have "timer_starts s'' = timer_starts s'" by (simp add: timer_starts_def)
    ultimately show ?thesis using sv st t f'' fl by auto
  qed
  have wk: "QTimer_timeout s' = Inl (AssertionFailed ''Saving should happen on the UI thread.'')"
    if th: "th = WorkerThread"
    using QTimer_timeout_on_worker_thread[OF timer] th by simp
  from timer starts sv st ui wk show ?thesis by blast
qed

lemma reset_call: "call UIThread (Slot setDefaultSettings) idle_bridge = Inr reset_posted"
  by (simp add: slot_def isOnWorkerThread_def invokeMethod_def reset_posted_def idle_bridge_def
      initial_bridge_def)

lemma reset_iteration: "loop_iteration reset_posted = Inr (Parked, reset_dispatched)"
  by (simp add: reset_posted_def reset_dispatched_def idle_bridge_def initial_bridge_def
      loop_iteration_def QEventLoop_exec_def processEvents_def dispatch_def slot_def
      isOnWorkerThread_def SetDefaultSettings_def checkRenderToMainState_def
      QueueSettingsSave_def SETTINGS_SAVE_DELAY_def record_event_def bindE_def Let_def)

lemma reset_burst: "mutate_all burst3 reset_dispatched = ([True, True, True], reset_then_burst)"
  by (simp add: burst3_def reset_dispatched_def reset_then_burst_def idle_bridge_def
      initial_bridge_def mutate_def QueueSettingsSave_def fun_upd_twist)

text \<open>
  C6. \<open>setDefaultSettings()\<close> called on the UI thread is posted; the worker's loop runs it,
  and \<open>SetDefaultSettings()\<close> queues the settings save there, so the timer is created and
  started on the worker thread. The three changes the UI thread then makes find a timer
  pending and start none. The one timeout is delivered on the worker thread, where the
  assertion of \<open>SaveSettings\<close> fails: nothing is saved and the file is never written.
\<close>

theorem save_timer_armed_on_worker_thread_fails:
  "call UIThread (Slot setDefaultSettings) idle_bridge = Inr reset_posted
   \<and> run_loop 1 reset_posted = Inr (Waiting, reset_dispatched)
   \<and> mutate_all burst3 reset_dispatched = ([True, True, True], reset_then_burst)
   \<and> s_settings_save_timer reset_then_burst =
        Some \<lparr>singleShot = True, interval = 1000, thread_affinity = WorkerThread\<rparr>
   \<and> timer_starts reset_then_burst = [(WorkerThread, QTimer_start 1000)]
   \<and> QTimer_timeout reset_then_burst =
        Inl (AssertionFailed ''Saving should happen on the UI thread.'')
   \<and> saves reset_then_burst = []
   \<and> settings_file reset_then_burst = None"
proof -
  have t: "s_settings_save_timer reset_then_burst =
        Some \<lparr>singleShot = True, interval = 1000, thread_affinity = WorkerThread\<rparr>"
    by (simp add: reset_then_burst_def reset_dispatched_def)
  have a: "thread_affinity \<lparr>singleShot = True, interval = 1000, thread_affinity = WorkerThread\<rparr>
             = WorkerThread" by simp
  have ts: "timer_starts reset_then_burst = [(WorkerThread, QTimer_start 1000)]"
    and sv: "saves reset_then_burst = []"
    by (simp_all add: reset_then_burst_def reset_dispatched_def timer_starts_def saves_def)
  have f: "settings_file reset_then_burst = None"
    by (simp add: reset_then_burst_def reset_dispatched_def idle_bridge_def initial_bridge_def)
  have "\<not> m_shutdown_flag reset_posted"
    by (simp add: reset_posted_def idle_bridge_def initial_bridge_def)
  with reset_iteration have l: "run_loop 1 reset_posted = Inr (Waiting, reset_dispatched)"
    by (simp add: bindE_def)
  from reset_call l reset_burst t ts QTimer_timeout_on_worker_thread[OF t a] sv f
  show ?thesis by simp
qed

subsection \<open>The settings version check\<close>















subsection \<open>Effects of code running on the worker thread\<close>

lemma worker_effect_refl: "worker_effect s s"
  by (simp add: worker_effect_def)

lemma worker_effect_trans: "worker_effect a b \<Longrightarrow> worker_effect b c \<Longrightarrow> worker_effect a c"
  by (auto simp: worker_effect_def)

lemma renderDisplay_effect:
  "renderDisplay WorkerThread s = Inr s' \<Longrightarrow> worker_effect s s'"
  by (auto simp: renderDisplay_def record_events_def worker_effect_def worker_event_def
      split: option.splits)

lemma redrawDisplayWindow_slot_effect:
  "redrawDisplayWindow_slot WorkerThread s = Inr s' \<Longrightarrow> worker_effect s s'"
  by (auto simp: redrawDisplayWindow_slot_def isOnWorkerThread_def worker_effect_refl
      dest: renderDisplay_effect split: if_splits)

lemma updateDisplayState_effect:
  "updateDisplayState WorkerThread s = Inr s' \<Longrightarrow> worker_effect s s'"
  by (auto simp: updateDisplayState_def bindE_Inr Let_def record_event_def worker_effect_def
      worker_event_def
      dest!: redrawDisplayWindow_slot_effect split: option.splits if_splits)

lemma SetFullscreen_effect:
  "SetFullscreen WorkerThread e s = Inr (r, s') \<Longrightarrow> worker_effect s s'"
  by (auto simp: SetFullscreen_def bindE_Inr worker_effect_def
      dest!: updateDisplayState_effect split: if_splits)

lemma ReportError_effect:
  "ReportError WorkerThread m s = Inr s' \<Longrightarrow> worker_effect s s'"
  by (auto simp: ReportError_def bindE_Inr Let_def record_event_def worker_effect_def
      worker_event_def
      dest!: SetFullscreen_effect split: if_splits)


lemma startTimer_effect:
  "startBackgroundControllerPollTimer s = Inr s' \<Longrightarrow> worker_effect s s'"
  by (auto simp: startBackgroundControllerPollTimer_def worker_effect_def
      split: option.splits if_splits)

lemma stopTimer_effect:
  "stopBackgroundControllerPollTimer s = Inr s' \<Longrightarrow> worker_effect s s'"
  by (auto simp: stopBackgroundControllerPollTimer_def worker_effect_def
      split: option.splits if_splits)

lemma OnSystemCreated_effect:
  "OnSystemCreated WorkerThread s = Inr s' \<Longrightarrow> worker_effect s s'"
  by (auto simp: OnSystemCreated_def bindE_Inr wakeThread_def isOnWorkerThread_def
      record_event_def record_events_def worker_effect_def worker_event_def
      dest!: stopTimer_effect)

lemma OnSystemPaused_effect:
  "OnSystemPaused WorkerThread p s = Inr s' \<Longrightarrow> worker_effect s s'"
  by (auto simp: OnSystemPaused_def bindE_Inr wakeThread_def isOnWorkerThread_def Let_def
      record_event_def record_events_def worker_effect_def worker_event_def
      dest!: stopTimer_effect startTimer_effect renderDisplay_effect split: if_splits)

lemma OnSystemDestroyed_effect:
  "OnSystemDestroyed WorkerThread s = Inr s' \<Longrightarrow> worker_effect s s'"
  by (auto simp: OnSystemDestroyed_def bindE_Inr
      record_event_def record_events_def worker_effect_def worker_event_def
      dest!: startTimer_effect)

lemma AcquireHostDisplay_effect:
  "AcquireHostDisplay WorkerThread s = Inr (r, s') \<Longrightarrow> worker_effect s s'"
  by (auto simp: AcquireHostDisplay_def Let_def
      record_event_def record_events_def worker_effect_def worker_event_def
      split: if_splits option.splits)

lemma ReleaseHostDisplay_effect:
  "ReleaseHostDisplay WorkerThread s = Inr s' \<Longrightarrow> worker_effect s s'"
  by (auto simp: ReleaseHostDisplay_def
      record_event_def record_events_def worker_effect_def worker_event_def
      split: option.splits)

lemma BootSystem_effect:
  "BootSystem WorkerThread p s = Inr (r, s') \<Longrightarrow> worker_effect s s'"
  by (auto simp: BootSystem_def bindE_Inr Let_def
      record_event_def worker_effect_def worker_event_def
      dest!: AcquireHostDisplay_effect OnSystemCreated_effect split: if_splits)

lemma PauseSystem_effect:
  "PauseSystem WorkerThread p s = Inr s' \<Longrightarrow> worker_effect s s'"
  by (auto simp: PauseSystem_def Let_def
      record_event_def worker_effect_def worker_event_def
      dest!: OnSystemPaused_effect split: if_splits)

lemma PowerOffSystem_effect:
  "PowerOffSystem WorkerThread c s = Inr s' \<Longrightarrow> worker_effect s s'"
  by (auto simp: PowerOffSystem_def bindE_Inr Let_def
      record_event_def worker_effect_def worker_event_def
      dest!: ReleaseHostDisplay_effect OnSystemDestroyed_effect split: if_splits)

lemma checkRenderToMainState_effect:
  assumes a: "checkRenderToMainState WorkerThread s = Inr s'"
  shows "worker_effect s s'"
proof (cases "system s \<noteq> Shutdown")
  case False
  with a show ?thesis by (simp add: checkRenderToMainState_def worker_effect_refl)
next
  case True
  let ?r = "GetBoolValue (s_base_settings_interface s) ''Main'' ''RenderToMainWindow'' True"
  from a have b: "(if m_display s \<noteq> None \<and> \<not> m_is_fullscreen s
                 \<and> ?r \<noteq> m_is_rendering_to_main s
            then updateDisplayState WorkerThread (s\<lparr>m_is_rendering_to_main := ?r\<rparr>)
            else if \<not> FullscreenUI_IsInitialized s then renderDisplay WorkerThread s
            else Inr s) = Inr s'"
    unfolding checkRenderToMainState_def Let_def if_P[OF True] .
  show ?thesis
  proof (cases "m_display s \<noteq> None \<and> \<not> m_is_fullscreen s \<and> ?r \<noteq> m_is_rendering_to_main s")
    case c: True
    from b have "updateDisplayState WorkerThread (s\<lparr>m_is_rendering_to_main := ?r\<rparr>) = Inr s'"
      unfolding if_P[OF c] .
    from updateDisplayState_effect[OF this] show ?thesis by (simp add: worker_effect_def)
  next
    case c: False
    from b have d: "(if \<not> FullscreenUI_IsInitialized s then renderDisplay WorkerThread s
            else Inr s) = Inr s'"
      unfolding if_not_P[OF c] .
    show ?thesis
    proof (cases "FullscreenUI_IsInitialized s")
      case True
      with d have "s' = s" by simp
      then show ?thesis by (simp add: worker_effect_refl)
    next
      case False
      with d have "renderDisplay WorkerThread s = Inr s'" by simp
      then show ?thesis by (rule renderDisplay_effect)
    qed
  qed
qed

lemma QueueSettingsSave_effect: "worker_effect s (QueueSettingsSave WorkerThread s)"
  by (simp add: QueueSettingsSave_def record_event_def worker_effect_def worker_event_def)

lemma record_event_effect: "plain e \<Longrightarrow> worker_effect s (record_event WorkerThread e s)"
  by (simp add: record_event_def worker_effect_def worker_event_def)

lemma SetDefaultSettings_effect:
  assumes a: "SetDefaultSettings WorkerThread s = Inr s'"
  shows "worker_effect s s'"
proof -
  let ?s0 = "record_event WorkerThread CommonHostInterface_SetDefaultSettings s"
  from a obtain s1 where c: "checkRenderToMainState WorkerThread ?s0 = Inr s1"
    and s': "s' = record_event WorkerThread (Emit settingsResetToDefault)
                    (QueueSettingsSave WorkerThread s1)"
    by (auto simp: SetDefaultSettings_def bindE_Inr)
  have 1: "worker_effect s ?s0" by (rule record_event_effect) simp
  note 2 = checkRenderToMainState_effect[OF c]
  have 3: "worker_effect s1 (QueueSettingsSave WorkerThread s1)" by (rule QueueSettingsSave_effect)
  have 4: "worker_effect (QueueSettingsSave WorkerThread s1) s'"
    unfolding s' by (rule record_event_effect) simp
  from 1 2 3 4 show ?thesis by (blast intro: worker_effect_trans)
qed

lemma ApplySettings_effect:
  assumes a: "ApplySettings WorkerThread d s = Inr s'"
  shows "worker_effect s s'"
proof -
  let ?s0 = "record_event WorkerThread (CommonHostInterface_ApplySettings d) s"
  from a have c: "checkRenderToMainState WorkerThread ?s0 = Inr s'"
    by (simp add: ApplySettings_def)
  have 1: "worker_effect s ?s0" by (rule record_event_effect) simp
  from 1 checkRenderToMainState_effect[OF c] show ?thesis by (rule worker_effect_trans)
qed


lemma body_effect:
  assumes n: "\<forall>callback. c \<noteq> executeOnEmulationThread callback True"
      and b: "body WorkerThread c s = Inr s'"
  shows "worker_effect s s'"
proof (cases c)
  case setDefaultSettings
  with b show ?thesis
    by (auto dest: SetDefaultSettings_effect)
next
  case (applySettings x2)
  with b show ?thesis
    by (auto dest: ApplySettings_effect)
next
  case (bootSystem x4)
  with b show ?thesis
    by (auto simp: bindE_Inr record_event_def worker_effect_def worker_event_def
        dest!: BootSystem_effect renderDisplay_effect split: if_splits)
next
  case toggleFullscreen
  with b show ?thesis
    by (auto simp: bindE_Inr dest: SetFullscreen_effect)
next
  case redrawDisplayWindow
  with b show ?thesis
    by (auto simp: worker_effect_refl dest: renderDisplay_effect split: if_splits)
next
  case powerOffSystem
  with b show ?thesis
    by (auto dest: PowerOffSystem_effect)
next
  case powerOffSystemWithoutSaving
  with b show ?thesis
    by (auto dest: PowerOffSystem_effect)
next
  case (pauseSystem x111 x112)
  with b show ?thesis
    by (auto dest: PauseSystem_effect)
next
  case (changeDiscFromPlaylist x13)
  with b show ?thesis
    by (auto simp: Let_def record_event_def worker_effect_def worker_event_def
        dest!: ReportError_effect split: if_splits)
next
  case singleStepCPU
  with b show ?thesis
    by (auto simp: Let_def record_event_def worker_effect_def worker_event_def
        dest!: renderDisplay_effect split: if_splits)
qed (use n b in \<open>auto simp: Let_def record_event_def record_events_def ReportMessage_def
       worker_effect_def worker_event_def split: if_splits\<close>)

lemma slot_effect:
  assumes "\<forall>callback. c \<noteq> executeOnEmulationThread callback True"
      and "slot WorkerThread c s = Inr s'"
  shows "worker_effect s s'"
  using assms by (auto simp: slot_def isOnWorkerThread_def dest: body_effect split: if_splits)

lemma slot_execute:
  "slot WorkerThread (executeOnEmulationThread callback True) s =
     Inr (s\<lparr>trace := trace s @ [(WorkerThread, Callback callback)],
            m_worker_thread_sync_execute_done := True\<rparr>)"
  by (simp add: slot_def isOnWorkerThread_def record_event_def)

lemma slot_effect_weak:
  assumes a: "slot WorkerThread c s = Inr s'"
  shows "posted s' = posted s \<and> caller_released s' = caller_released s
       \<and> (\<exists>es. trace s' = trace s @ es \<and> list_all worker_event es)"
proof (cases "\<forall>callback. c \<noteq> executeOnEmulationThread callback True")
  case True
  from slot_effect[OF True a] show ?thesis by (simp add: worker_effect_def)
next
  case False
  then obtain callback where c: "c = executeOnEmulationThread callback True" by blast
  from a show ?thesis unfolding c slot_execute by (auto simp: worker_event_def)
qed

subsection \<open>The run-loop\<close>

text \<open>
  C3. In the Active state (the system is running, with its display and the poll timer
  created at initialisation) an iteration is the active branch followed by the end of the
  iteration, and the active branch makes exactly these calls in this order: one frame when
  \<open>m_display_all_frames\<close> is set and a batch of frames otherwise; poll the input sources; when a
  frame step was requested, clear the request and pause the system (which reports the pause
  and renders); render; update the performance counters; throttle when the throttler is
  enabled.
\<close>

theorem active_iteration_steps:
  assumes running: "system s = Running"
      and disp: "m_display s = Some d"
      and timer: "m_background_controller_polling_timer s = Some a"
  shows "loop_iteration s = bindE (active_steps s) end_of_iteration
       \<and> (\<exists>s'. active_steps s = Inr s'
            \<and> trace s' = trace s @ map (Pair WorkerThread)
                ([if m_display_all_frames s then System_RunFrame else System_RunFrames,
                  InputManager_PollSources]
                 @ (if m_frame_step_request s
                    then [Core (pauseSystem True False), CommonHostInterface_OnSystemPaused True,
                          Emit (emulationPaused True), RenderOSD, DisplayRender, ImGuiNewFrame]
                    else [])
                 @ [RenderOSD, DisplayRender, ImGuiNewFrame, System_UpdatePerformanceCounters]
                 @ (if m_throttler_enabled s then [System_Throttle] else []))
            \<and> \<not> m_frame_step_request s'
            \<and> system s' = (if m_frame_step_request s then Paused else Running)
            \<and> posted s' = posted s)"
proof (intro conjI)
  from running show "loop_iteration s = bindE (active_steps s) end_of_iteration"
    by (simp add: loop_iteration_def)
next
  show "\<exists>s'. active_steps s = Inr s'
            \<and> trace s' = trace s @ map (Pair WorkerThread)
                ([if m_display_all_frames s then System_RunFrame else System_RunFrames,
                  InputManager_PollSources]
                 @ (if m_frame_step_request s
                    then [Core (pauseSystem True False), CommonHostInterface_OnSystemPaused True,
                          Emit (emulationPaused True), RenderOSD, DisplayRender, ImGuiNewFrame]
                    else [])
                 @ [RenderOSD, DisplayRender, ImGuiNewFrame, System_UpdatePerformanceCounters]
                 @ (if m_throttler_enabled s then [System_Throttle] else []))
            \<and> \<not> m_frame_step_request s'
            \<and> system s' = (if m_frame_step_request s then Paused else Running)
            \<and> posted s' = posted s"
  proof (cases "m_frame_step_request s")
    case False
    with running disp show ?thesis
      by (simp add: active_steps_def Let_def bindE_def renderDisplay_def record_event_def
          record_events_def)
  next
    case True
    with running disp timer show ?thesis
      by (simp add: active_steps_def Let_def bindE_def renderDisplay_def record_event_def
          record_events_def PauseSystem_def OnSystemPaused_def
          startBackgroundControllerPollTimer_def)
  qed
qed

theorem active_iteration_steps_witness:
  "\<exists>s'. active_steps running_bridge = Inr s'
     \<and> trace s' = map (Pair WorkerThread)
          [System_RunFrame, InputManager_PollSources, RenderOSD, DisplayRender, ImGuiNewFrame,
           System_UpdatePerformanceCounters, System_Throttle]"
proof -
  have r: "system running_bridge = Running"
    and d: "m_display running_bridge = Some working_display"
    and t: "m_background_controller_polling_timer running_bridge = Some False"
    and f: "\<not> m_frame_step_request running_bridge" "m_display_all_frames running_bridge"
           "m_throttler_enabled running_bridge" "trace running_bridge = []"
    by (simp_all add: running_bridge_def initial_bridge_def)
  from active_iteration_steps [OF r d t] f show ?thesis by auto
qed

lemma dispatches_append: "dispatches (xs @ ys) = dispatches xs @ dispatches ys"
  by (simp add: dispatches_def)

lemma plain_not_stepping: "plain e \<Longrightarrow> \<not> stepping e"
  by (cases e) auto

lemma dispatches_worker_events: "list_all worker_event es \<Longrightarrow> dispatches es = []"
proof (induction es)
  case Nil
  show ?case by (simp add: dispatches_def)
next
  case (Cons x es)
  obtain th e where x: "x = (th, e)" by (cases x)
  from Cons.prems x have "plain e" by (simp add: worker_event_def)
  then have "(case e of Dispatch c \<Rightarrow> [c] | _ \<Rightarrow> []) = []" by (cases e) auto
  with Cons x show ?case by (simp add: dispatches_def)
qed

lemma worker_events_no_step:
  "list_all worker_event es \<Longrightarrow> list_all (\<lambda>x. fst x = WorkerThread \<and> \<not> stepping (snd x)) es"
  by (induction es) (auto simp: worker_event_def plain_not_stepping)

lemma dispatch_effect:
  assumes "dispatch p s = Inr s'"
  shows "posted s' = posted s \<and>
         (\<exists>es. trace s' = trace s @ (WorkerThread, Dispatch (fst p)) # es \<and> list_all worker_event es)"
proof -
  let ?s0 = "record_event WorkerThread (Dispatch (fst p)) s"
  from assms obtain s1 where sl: "slot WorkerThread (fst p) ?s0 = Inr s1"
    and s': "s' = (if snd p = BlockingQueuedConnection then s1\<lparr>caller_released := Suc (caller_released s1)\<rparr> else s1)"
    by (auto simp: dispatch_def bindE_Inr)
  from slot_effect_weak[OF sl] have "posted s1 = posted s"
    and "\<exists>es. trace s1 = trace s @ (WorkerThread, Dispatch (fst p)) # es \<and> list_all worker_event es"
    by (auto simp: record_event_def)
  with s' show ?thesis by auto
qed

lemma dispatch_all_effect:
  "dispatch_all q s = Inr s' \<Longrightarrow>
     posted s' = posted s \<and>
     (\<exists>es. trace s' = trace s @ es \<and> dispatches es = map fst q
          \<and> list_all (\<lambda>x. fst x = WorkerThread \<and> \<not> stepping (snd x)) es)"
proof (induction q arbitrary: s)
  case Nil
  then show ?case by (simp add: dispatches_def)
next
  case (Cons p q)
  from Cons.prems obtain s1 where d: "dispatch p s = Inr s1" and r: "dispatch_all q s1 = Inr s'"
    by (auto simp: bindE_Inr)
  from dispatch_effect[OF d] obtain es1 where p1: "posted s1 = posted s"
    and t1: "trace s1 = trace s @ (WorkerThread, Dispatch (fst p)) # es1"
    and w1: "list_all worker_event es1" by blast
  from Cons.IH[OF r] obtain es2 where p2: "posted s' = posted s1"
    and t2: "trace s' = trace s1 @ es2" and d2: "dispatches es2 = map fst q"
    and w2: "list_all (\<lambda>x. fst x = WorkerThread \<and> \<not> stepping (snd x)) es2" by blast
  let ?es = "(WorkerThread, Dispatch (fst p)) # es1 @ es2"
  have "trace s' = trace s @ ?es" using t1 t2 by simp
  moreover have "dispatches ?es = map fst (p # q)"
    using dispatches_worker_events[OF w1] d2
    by (simp add: dispatches_def)
  moreover have "list_all (\<lambda>x. fst x = WorkerThread \<and> \<not> stepping (snd x)) ?es"
    using worker_events_no_step[OF w1] w2 by simp
  ultimately show ?case using p1 p2 by (intro conjI exI[where x="?es"]) auto
qed

lemma processEvents_drains:
  assumes "processEvents s = Inr s'"
  shows "posted s' = [] \<and>
     (\<exists>es. trace s' = trace s @ es \<and> dispatches es = map fst (posted s)
          \<and> list_all (\<lambda>x. fst x = WorkerThread \<and> \<not> stepping (snd x)) es)"
  using dispatch_all_effect[of "posted s" "s\<lparr>posted := []\<rparr>" s'] assms
  by (simp add: processEvents_def)

lemma end_of_iteration_drains:
  assumes "end_of_iteration s = Inr (st, s')"
  shows "posted s' = [] \<and>
     (\<exists>es. trace s' = trace s @ es \<and> dispatches es = map fst (posted s)
          \<and> list_all (\<lambda>x. fst x = WorkerThread \<and> \<not> stepping (snd x)) es)"
proof -
  from assms obtain s1 where p: "processEvents s = Inr s1"
    and s': "s' = record_event WorkerThread PollAndUpdate s1"
    by (auto simp: end_of_iteration_def bindE_Inr)
  from processEvents_drains[OF p] obtain es where "posted s1 = []" "trace s1 = trace s @ es"
    "dispatches es = map fst (posted s)"
    "list_all (\<lambda>x. fst x = WorkerThread \<and> \<not> stepping (snd x)) es" by blast
  then have "posted s' = [] \<and> trace s' = trace s @ (es @ [(WorkerThread, PollAndUpdate)])
     \<and> dispatches (es @ [(WorkerThread, PollAndUpdate)]) = map fst (posted s)
     \<and> list_all (\<lambda>x. fst x = WorkerThread \<and> \<not> stepping (snd x)) (es @ [(WorkerThread, PollAndUpdate)])"
    by (simp add: s' record_event_def dispatches_def)
  then show ?thesis by blast
qed

lemma QEventLoop_exec_drains:
  assumes "QEventLoop_exec s = Inr (st, s')"
  shows "posted s' = [] \<and>
     (\<exists>es. trace s' = trace s @ es \<and> dispatches es = map fst (posted s)
          \<and> list_all (\<lambda>x. fst x = WorkerThread \<and> \<not> stepping (snd x)) es)"
proof -
  from assms have p: "processEvents (s\<lparr>loop_exit := False\<rparr>) = Inr s'"
    by (auto simp: QEventLoop_exec_def bindE_Inr)
  from processEvents_drains[OF p] show ?thesis by simp
qed

lemma active_steps_effect:
  assumes "active_steps s = Inr s'"
  shows "posted s' = posted s \<and>
     (\<exists>es. trace s' = trace s @ es \<and> dispatches es = [] \<and> list_all (\<lambda>x. fst x = WorkerThread) es)"
proof -
  let ?s2 = "record_event WorkerThread InputManager_PollSources
              (record_event WorkerThread
                 (if m_display_all_frames s then System_RunFrame else System_RunFrames) s)"
  from assms obtain s3 s4 where
    a: "(if m_frame_step_request ?s2
         then PauseSystem WorkerThread True (?s2\<lparr>m_frame_step_request := False\<rparr>)
         else Inr ?s2) = Inr s3"
    and b: "renderDisplay WorkerThread s3 = Inr s4"
    and c: "s' = (let s5 = record_event WorkerThread System_UpdatePerformanceCounters s4
                  in if m_throttler_enabled s5 then record_event WorkerThread System_Throttle s5
                     else s5)"
    by (auto simp: active_steps_def Let_def bindE_Inr)
  have a': "worker_effect ?s2 s3"
  proof (cases "m_frame_step_request ?s2")
    case True
    with a have "PauseSystem WorkerThread True (?s2\<lparr>m_frame_step_request := False\<rparr>) = Inr s3"
      by simp
    from PauseSystem_effect[OF this] show ?thesis by (simp add: worker_effect_def)
  next
    case False
    with a show ?thesis by (simp add: worker_effect_refl)
  qed
  note b' = renderDisplay_effect[OF b]
  from worker_effect_trans[OF a' b'] obtain es where p: "posted s4 = posted s"
    and t: "trace s4 = trace ?s2 @ es" and w: "list_all worker_event es"
    by (auto simp: worker_effect_def record_event_def)
  have w1: "list_all (\<lambda>x. fst x = WorkerThread) es"
    using w by (induction es) (auto simp: worker_event_def)
  from p t c dispatches_worker_events[OF w] w1 show ?thesis
    by (auto simp: Let_def record_event_def dispatches_def)
qed

lemma loop_iteration_drains:
  assumes it: "loop_iteration s = Inr (st, s')"
  shows "posted s' = []
     \<and> (\<exists>pre post. trace s' = trace s @ pre @ post
           \<and> dispatches pre = []
           \<and> dispatches post = map fst (posted s)
           \<and> list_all (\<lambda>x. fst x = WorkerThread) (pre @ post)
           \<and> list_all (\<lambda>x. \<not> stepping (snd x)) post)"
proof (cases "system s = Running")
  case True
  with it obtain s1 where a: "active_steps s = Inr s1" and e: "end_of_iteration s1 = Inr (st, s')"
    by (auto simp: loop_iteration_def bindE_Inr)
  from active_steps_effect[OF a] obtain pre where p1: "posted s1 = posted s"
    and t1: "trace s1 = trace s @ pre" and d1: "dispatches pre = []"
    and w1: "list_all (\<lambda>x. fst x = WorkerThread) pre" by blast
  from end_of_iteration_drains[OF e] obtain post where p2: "posted s' = []"
    and t2: "trace s' = trace s1 @ post" and d2: "dispatches post = map fst (posted s1)"
    and w2: "list_all (\<lambda>x. fst x = WorkerThread \<and> \<not> stepping (snd x)) post" by blast
  from w2 have w2a: "list_all (\<lambda>x. fst x = WorkerThread) post"
    and w2b: "list_all (\<lambda>x. \<not> stepping (snd x)) post"
    by (simp_all add: list_all_iff)
  from t1 t2 have "trace s' = trace s @ pre @ post" by simp
  with p1 p2 d1 d2 w1 w2a w2b show ?thesis by auto
next
  case False
  show ?thesis
  proof (cases "\<not> FullscreenUI_IsInitialized s \<or> system s = Shutdown")
    case True
    with False it have e: "QEventLoop_exec s = Inr (st, s')"
      by (auto simp: loop_iteration_def)
    from QEventLoop_exec_drains[OF e] obtain post where p2: "posted s' = []"
      and t2: "trace s' = trace s @ post" and d2: "dispatches post = map fst (posted s)"
      and w2: "list_all (\<lambda>x. fst x = WorkerThread \<and> \<not> stepping (snd x)) post" by blast
    from w2 have w2a: "list_all (\<lambda>x. fst x = WorkerThread) post"
      and w2b: "list_all (\<lambda>x. \<not> stepping (snd x)) post"
      by (simp_all add: list_all_iff)
    have "trace s' = trace s @ [] @ post \<and> dispatches [] = []
        \<and> list_all (\<lambda>x. fst x = WorkerThread) ([] @ post)"
      using t2 w2a by (simp add: dispatches_def)
    with p2 d2 w2b show ?thesis by blast
  next
    case c: False
    with False it obtain s1 where a: "renderDisplay WorkerThread s = Inr s1"
      and e: "end_of_iteration s1 = Inr (st, s')"
      by (auto simp: loop_iteration_def bindE_Inr)
    from renderDisplay_effect[OF a] obtain pre where p1: "posted s1 = posted s"
      and t1: "trace s1 = trace s @ pre" and wp: "list_all worker_event pre"
      by (auto simp: worker_effect_def)
    from wp have w1: "list_all (\<lambda>x. fst x = WorkerThread) pre"
      by (induction pre) (auto simp: worker_event_def)
    note d1 = dispatches_worker_events[OF wp]
    from end_of_iteration_drains[OF e] obtain post where p2: "posted s' = []"
      and t2: "trace s' = trace s1 @ post" and d2: "dispatches post = map fst (posted s1)"
      and w2: "list_all (\<lambda>x. fst x = WorkerThread \<and> \<not> stepping (snd x)) post" by blast
    from w2 have w2a: "list_all (\<lambda>x. fst x = WorkerThread) post"
      and w2b: "list_all (\<lambda>x. \<not> stepping (snd x)) post"
      by (simp_all add: list_all_iff)
    from t1 t2 have "trace s' = trace s @ pre @ post" by simp
    with p1 p2 d1 d2 w1 w2a w2b show ?thesis by auto
  qed
qed

lemma iteration_events:
  "(\<forall>st s'. loop_iteration s = Inr (st, s') \<longrightarrow>
       posted s' = []
     \<and> (\<exists>pre post. trace s' = trace s @ pre @ post
           \<and> dispatches pre = []
           \<and> dispatches post = map fst (posted s)
           \<and> list_all (\<lambda>x. fst x = WorkerThread) (pre @ post)
           \<and> list_all (\<lambda>x. \<not> stepping (snd x)) post))
 \<and> (\<forall>st s'. end_of_iteration s = Inr (st, s') \<longrightarrow>
       posted s' = []
     \<and> (\<exists>post. trace s' = trace s @ post
           \<and> dispatches post = map fst (posted s)
           \<and> list_all (\<lambda>x. fst x = WorkerThread \<and> \<not> stepping (snd x)) post))
 \<and> (\<forall>st s'. QEventLoop_exec s = Inr (st, s') \<longrightarrow>
       posted s' = []
     \<and> (\<exists>post. trace s' = trace s @ post
           \<and> dispatches post = map fst (posted s)
           \<and> list_all (\<lambda>x. fst x = WorkerThread \<and> \<not> stepping (snd x)) post))"
proof (intro conjI allI impI)
  fix st s' assume "end_of_iteration s = Inr (st, s')"
  from end_of_iteration_drains[OF this]
  show "posted s' = []" and "\<exists>post. trace s' = trace s @ post
           \<and> dispatches post = map fst (posted s)
           \<and> list_all (\<lambda>x. fst x = WorkerThread \<and> \<not> stepping (snd x)) post" by auto
next
  fix st s' assume "QEventLoop_exec s = Inr (st, s')"
  from QEventLoop_exec_drains[OF this]
  show "posted s' = []" and "\<exists>post. trace s' = trace s @ post
           \<and> dispatches post = map fst (posted s)
           \<and> list_all (\<lambda>x. fst x = WorkerThread \<and> \<not> stepping (snd x)) post" by auto
next
  fix st s' assume it: "loop_iteration s = Inr (st, s')"
  note loop_iteration_drains[OF it]
  then show "posted s' = []" and "\<exists>pre post. trace s' = trace s @ pre @ post
           \<and> dispatches pre = []
           \<and> dispatches post = map fst (posted s)
           \<and> list_all (\<lambda>x. fst x = WorkerThread) (pre @ post)
           \<and> list_all (\<lambda>x. \<not> stepping (snd x)) post" by auto
qed

lemmas eval_defs =
  running_bridge_def initial_bridge_def working_display_def
  loop_iteration_def active_steps_def end_of_iteration_def processEvents_def QEventLoop_exec_def
  dispatch_def slot_def isOnWorkerThread_def
  PauseSystem_def OnSystemPaused_def startBackgroundControllerPollTimer_def
  stopBackgroundControllerPollTimer_def renderDisplay_def
  record_event_def record_events_def bindE_def Let_def

lemma ordering_iteration:
  "loop_iteration ordering_bridge =
     Inr (Continue, ordering_bridge\<lparr>posted := [], system := Paused,
            m_background_controller_polling_timer := Some True, trace := ordering_trace\<rparr>)"
  by (simp add: ordering_bridge_def ordering_trace_def eval_defs)

lemma slot_on_worker: "slot WorkerThread c s = body WorkerThread c s"
  by (simp add: slot_def isOnWorkerThread_def)

lemma dispatch_all_executed: "dispatch_all ps s = executed_in_order ps s"
proof (induction ps arbitrary: s)
  case Nil
  then show ?case by simp
next
  case (Cons p ps)
  obtain c conn where p: "p = (c, conn)" by (cases p)
  show ?case
    unfolding p dispatch_all.simps executed_in_order.simps dispatch_def slot_on_worker fst_conv snd_conv
    by (cases "body WorkerThread c (record_event WorkerThread (Dispatch c) s)")
       (simp_all add: bindE_def Cons.IH)
qed

lemma end_of_iteration_executes:
  "end_of_iteration s =
     bindE (executed_in_order (posted s) (s\<lparr>posted := []\<rparr>))
       (\<lambda>s2. Inr (Continue, record_event WorkerThread PollAndUpdate s2))"
  by (simp add: end_of_iteration_def processEvents_def dispatch_all_executed)

lemma QEventLoop_exec_executes:
  "QEventLoop_exec s =
     bindE (executed_in_order (posted s) (s\<lparr>loop_exit := False, posted := []\<rparr>))
       (\<lambda>s2. Inr (if loop_exit s2 then Continue else Parked, s2))"
  by (simp add: QEventLoop_exec_def processEvents_def dispatch_all_executed)

lemma loop_iteration_executes:
  "loop_iteration s =
     (if system s = Running
      then bindE (active_steps s)
             (\<lambda>s1. bindE (executed_in_order (posted s) (s1\<lparr>posted := []\<rparr>))
                      (\<lambda>s2. Inr (Continue, record_event WorkerThread PollAndUpdate s2)))
      else if \<not> FullscreenUI_IsInitialized s \<or> system s = Shutdown
      then bindE (executed_in_order (posted s) (s\<lparr>loop_exit := False, posted := []\<rparr>))
             (\<lambda>s2. Inr (if loop_exit s2 then Continue else Parked, s2))
      else bindE (renderDisplay WorkerThread s)
             (\<lambda>s1. bindE (executed_in_order (posted s) (s1\<lparr>posted := []\<rparr>))
                      (\<lambda>s2. Inr (Continue, record_event WorkerThread PollAndUpdate s2))))"
proof (cases "system s = Running")
  case True
  show ?thesis
  proof (cases "active_steps s")
    case (Inl e)
    with True show ?thesis by (simp add: loop_iteration_def bindE_def)
  next
    case (Inr s1)
    from active_steps_effect[OF Inr] have "posted s1 = posted s" by simp
    with True Inr show ?thesis
      by (simp add: loop_iteration_def bindE_def end_of_iteration_executes)
  qed
next
  case nr: False
  show ?thesis
  proof (cases "\<not> FullscreenUI_IsInitialized s \<or> system s = Shutdown")
    case True
    with nr show ?thesis by (simp add: loop_iteration_def QEventLoop_exec_executes)
  next
    case False
    show ?thesis
    proof (cases "renderDisplay WorkerThread s")
      case (Inl e)
      with nr False show ?thesis by (simp add: loop_iteration_def bindE_def)
    next
      case (Inr s1)
      from renderDisplay_effect[OF Inr] have "posted s1 = posted s"
        by (simp add: worker_effect_def)
      with nr False Inr show ?thesis
        by (simp add: loop_iteration_def bindE_def end_of_iteration_executes)
    qed
  qed
qed

text \<open>
  C4. Every iteration of the run-loop ends by executing the commands queued for the worker
  thread: after the iteration's own work (the emulation step in the Active state, the
  overlay render in the Blocked state, nothing when it waits in \<open>exec()\<close>), which leaves the
  queue alone, the body of every queued command is run on the worker thread, in the order
  queued, each against the state the one before it left, and the iteration fails exactly
  when one of them does. When the iteration returns the queue is empty, every event of it
  is on the worker thread, and no emulation step happens once the first command has started:
  the next step belongs to the next iteration. The same holds from any state for the event
  processing that ends an iteration and for \<open>exec()\<close>, so commands queued while the step runs
  are covered.
\<close>

theorem commands_drained_every_iteration:
  "loop_iteration s =
     (if system s = Running
      then bindE (active_steps s)
             (\<lambda>s1. bindE (executed_in_order (posted s) (s1\<lparr>posted := []\<rparr>))
                      (\<lambda>s2. Inr (Continue, record_event WorkerThread PollAndUpdate s2)))
      else if \<not> FullscreenUI_IsInitialized s \<or> system s = Shutdown
      then bindE (executed_in_order (posted s) (s\<lparr>loop_exit := False, posted := []\<rparr>))
             (\<lambda>s2. Inr (if loop_exit s2 then Continue else Parked, s2))
      else bindE (renderDisplay WorkerThread s)
             (\<lambda>s1. bindE (executed_in_order (posted s) (s1\<lparr>posted := []\<rparr>))
                      (\<lambda>s2. Inr (Continue, record_event WorkerThread PollAndUpdate s2))))
 \<and> end_of_iteration s =
     bindE (executed_in_order (posted s) (s\<lparr>posted := []\<rparr>))
       (\<lambda>s2. Inr (Continue, record_event WorkerThread PollAndUpdate s2))
 \<and> QEventLoop_exec s =
     bindE (executed_in_order (posted s) (s\<lparr>loop_exit := False, posted := []\<rparr>))
       (\<lambda>s2. Inr (if loop_exit s2 then Continue else Parked, s2))
 \<and> (\<forall>st s'. loop_iteration s = Inr (st, s') \<longrightarrow>
       posted s' = []
     \<and> (\<exists>pre post. trace s' = trace s @ pre @ post
           \<and> dispatches pre = []
           \<and> dispatches post = map fst (posted s)
           \<and> list_all (\<lambda>x. fst x = WorkerThread) (pre @ post)
           \<and> list_all (\<lambda>x. \<not> stepping (snd x)) post))
 \<and> (\<forall>st s'. end_of_iteration s = Inr (st, s') \<longrightarrow>
       posted s' = []
     \<and> (\<exists>post. trace s' = trace s @ post
           \<and> dispatches post = map fst (posted s)
           \<and> list_all (\<lambda>x. fst x = WorkerThread \<and> \<not> stepping (snd x)) post))
 \<and> (\<forall>st s'. QEventLoop_exec s = Inr (st, s') \<longrightarrow>
       posted s' = []
     \<and> (\<exists>post. trace s' = trace s @ post
           \<and> dispatches post = map fst (posted s)
           \<and> list_all (\<lambda>x. fst x = WorkerThread \<and> \<not> stepping (snd x)) post))"
  apply (rule conjI)
   apply (rule loop_iteration_executes)
  apply (rule conjI)
   apply (rule end_of_iteration_executes)
  apply (rule conjI)
   apply (rule QEventLoop_exec_executes)
  apply (rule iteration_events)
  done

lemma ordering_steps:
  "active_steps ordering_bridge =
     Inr (ordering_bridge\<lparr>trace := map (Pair WorkerThread)
            [System_RunFrame, InputManager_PollSources, RenderOSD, DisplayRender, ImGuiNewFrame,
             System_UpdatePerformanceCounters, System_Throttle]\<rparr>)"
  by (simp add: ordering_bridge_def eval_defs)

lemma ordering_pause:
  "executed_in_order [(pauseSystem True False, QueuedConnection)] ordering_stepped
     = Inr ordering_paused"
  by (simp add: ordering_stepped_def ordering_paused_def eval_defs)

lemma ordering_load:
  "executed_in_order [(loadStateSlot False 1, QueuedConnection)] ordering_paused
     = Inr (ordering_paused\<lparr>trace := trace ordering_paused @
              map (Pair WorkerThread) [Dispatch (loadStateSlot False 1), Core (loadStateSlot False 1)]\<rparr>)"
  by (simp add: ordering_paused_def eval_defs)

lemma executed_in_order_append:
  "executed_in_order (ps @ qs) s = bindE (executed_in_order ps s) (executed_in_order qs)"
proof (induction ps arbitrary: s)
  case Nil
  then show ?case by (simp add: bindE_def)
next
  case (Cons p ps)
  obtain c conn where p: "p = (c, conn)" by (cases p)
  show ?case unfolding p
    by (cases "body WorkerThread c (record_event WorkerThread (Dispatch c) s)")
       (simp_all add: bindE_def Cons.IH)
qed

theorem commands_drained_every_iteration_witness:
  "executed_in_order [(pauseSystem True False, QueuedConnection)] ordering_stepped
     = Inr ordering_paused
   \<and> system ordering_paused = Paused
   \<and> (\<exists>s3. executed_in_order [(loadStateSlot False 1, QueuedConnection)] ordering_paused = Inr s3
          \<and> loop_iteration ordering_bridge
               = Inr (Continue, record_event WorkerThread PollAndUpdate s3)
          \<and> posted s3 = [] \<and> system s3 = Paused
          \<and> trace (record_event WorkerThread PollAndUpdate s3) = ordering_trace)"
proof -
  let ?s3 = "ordering_paused\<lparr>trace := trace ordering_paused @
              map (Pair WorkerThread) [Dispatch (loadStateSlot False 1), Core (loadStateSlot False 1)]\<rparr>"
  note t = commands_drained_every_iteration [of ordering_bridge]
  have r: "system ordering_bridge = Running"
    and q: "posted ordering_bridge = [(pauseSystem True False, QueuedConnection)] @
                               [(loadStateSlot False 1, QueuedConnection)]"
    by (simp_all add: ordering_bridge_def running_bridge_def)
  have st: "ordering_bridge\<lparr>trace := map (Pair WorkerThread)
            [System_RunFrame, InputManager_PollSources, RenderOSD, DisplayRender, ImGuiNewFrame,
             System_UpdatePerformanceCounters, System_Throttle], posted := []\<rparr> = ordering_stepped"
    by (simp add: ordering_bridge_def ordering_stepped_def running_bridge_def initial_bridge_def)
  have both: "executed_in_order (posted ordering_bridge) ordering_stepped = Inr ?s3"
    unfolding q executed_in_order_append ordering_pause
    by (simp add: bindE_def record_event_def)
  from t [THEN conjunct1] r
  have "loop_iteration ordering_bridge =
          bindE (active_steps ordering_bridge)
             (\<lambda>s1. bindE (executed_in_order (posted ordering_bridge) (s1\<lparr>posted := []\<rparr>))
                      (\<lambda>s2. Inr (Continue, record_event WorkerThread PollAndUpdate s2)))"
    by simp
  moreover have "executed_in_order (posted ordering_bridge)
           (ordering_bridge\<lparr>trace := map (Pair WorkerThread)
            [System_RunFrame, InputManager_PollSources, RenderOSD, DisplayRender, ImGuiNewFrame,
             System_UpdatePerformanceCounters, System_Throttle], posted := []\<rparr>) = Inr ?s3"
    unfolding st by (rule both)
  ultimately have l: "loop_iteration ordering_bridge
                  = Inr (Continue, record_event WorkerThread PollAndUpdate ?s3)"
    unfolding ordering_steps by (simp add: bindE_def)
  from t [THEN conjunct2, THEN conjunct2, THEN conjunct2, THEN conjunct1, rule_format, OF l]
  have "posted (record_event WorkerThread PollAndUpdate ?s3) = []" by (rule conjunct1)
  then have p: "posted ?s3 = []" by (simp add: record_event_def)
  have sy: "system ordering_paused = Paused" "system ?s3 = Paused"
    by (simp_all add: ordering_paused_def)
  have tr: "trace (record_event WorkerThread PollAndUpdate ?s3) = ordering_trace"
    by (simp add: record_event_def ordering_paused_def ordering_trace_def)
  from ordering_pause sy ordering_load l p tr show ?thesis by blast
qed

lemma teardown_pending:
  "s_settings_save_timer s = Some t \<Longrightarrow>
     teardown s = Inl (AssertionFailed ''Saving should happen on the UI thread.'')"
  by (simp add: teardown_def shutdownOnThread_def SaveSettings_def isOnWorkerThread_def
      record_event_def Let_def)

lemma closing_timer:
  "s_settings_save_timer closing_bridge = Some \<lparr>singleShot = True, interval = 1000, thread_affinity = UIThread\<rparr>
   \<and> settings_file closing_bridge = None \<and> \<not> m_shutdown_flag closing_bridge
   \<and> system closing_bridge = Shutdown
   \<and> posted closing_bridge = [(doStopThread, QueuedConnection)]"
  by (simp add: closing_bridge_def idle_bridge_def burst3_def initial_bridge_def mutate_def
      QueueSettingsSave_def record_event_def SETTINGS_SAVE_DELAY_def)

lemma closing_iteration: "loop_iteration closing_bridge = Inr (Continue, closing_exited)"
  using closing_timer
  by (simp add: loop_iteration_def QEventLoop_exec_def processEvents_def dispatch_def slot_def
      bindE_def record_event_def closing_exited_def)

text \<open>
  C7. The teardown of \<open>threadEntryPoint\<close> runs on the worker thread. With a save timer
  outstanding it discards the timer and calls \<open>SaveSettings\<close>, whose first statement asserts
  that it is not on the worker thread: the run-loop exits on the shutdown flag, the
  assertion fails, and the settings file is never written.
\<close>

theorem teardown_save_on_worker_thread_fails:
  "run_loop 2 closing_bridge = Inr (Exited, closing_exited)
   \<and> s_settings_save_timer closing_exited = Some \<lparr>singleShot = True, interval = 1000, thread_affinity = UIThread\<rparr>
   \<and> settings_file closing_exited = None
   \<and> teardown closing_exited = Inl (AssertionFailed ''Saving should happen on the UI thread.'')"
proof -
  have t: "s_settings_save_timer closing_exited = Some \<lparr>singleShot = True, interval = 1000, thread_affinity = UIThread\<rparr>"
    and f: "settings_file closing_exited = None" and sh: "m_shutdown_flag closing_exited"
    using closing_timer by (simp_all add: closing_exited_def)
  have "run_loop (Suc (Suc 0)) closing_bridge = Inr (Exited, closing_exited)"
    using closing_timer closing_iteration sh by (simp add: bindE_def)
  then have r: "run_loop 2 closing_bridge = Inr (Exited, closing_exited)"
    by (simp add: numeral_2_eq_2)
  from r t f teardown_pending[OF t] show ?thesis by simp
qed

subsection \<open>Power-off while a boot is pending\<close>



















subsection \<open>Marshalling to the worker thread\<close>

lemma marshalled_call:
  assumes m: "marshalled x"
  shows "call UIThread x s =
           Inr (invokeMethod (fst (posted_call x)) (snd (posted_call x))
                  (if cancels_startup x then CancelPendingStartup UIThread s else s))"
proof (cases x)
  case (Slot c)
  with m show ?thesis
    by (auto simp: slot_def isOnWorkerThread_def cancels_startup_def)
next
  case SynchronousPowerOffSystem
  then show ?thesis
    by (simp add: synchronousPowerOffSystem_def isOnWorkerThread_def cancels_startup_def)
next
  case (RunLaterOp f)
  then show ?thesis by (simp add: RunLater_def cancels_startup_def)
qed (use m in auto)

lemma marshalled_call_effect:
  assumes m: "marshalled x" and c: "call UIThread x s = Inr s'"
  shows "posted s' = posted s @ [posted_call x]
       \<and> trace s' = trace s @ (if cancels_startup x then [(UIThread, System_CancelPendingStartup)] else [])
       \<and> s' = s\<lparr>posted := posted s', trace := trace s', caller_released := caller_released s',
                startup_cancelled := startup_cancelled s'\<rparr>"
  using c unfolding marshalled_call[OF m]
  by (auto simp: invokeMethod_def CancelPendingStartup_def record_event_def)

lemma loop_iteration_on_worker:
  assumes "loop_iteration s = Inr (st, s')"
  shows "\<exists>es. trace s' = trace s @ es \<and> list_all (\<lambda>x. fst x = WorkerThread) es"
proof -
  from loop_iteration_drains[OF assms] obtain pre post where
    "trace s' = trace s @ pre @ post" "list_all (\<lambda>x. fst x = WorkerThread) (pre @ post)" by blast
  then show ?thesis by blast
qed

lemma run_actions_on_worker:
  "list_all marshalled_action acts \<Longrightarrow> run_actions acts s = Inr s' \<Longrightarrow>
     \<exists>es. trace s' = trace s @ es
        \<and> list_all (\<lambda>x. fst x = WorkerThread \<or> x = (UIThread, System_CancelPendingStartup)) es"
proof (induction acts arbitrary: s)
  case Nil
  then show ?case by simp
next
  case (Cons a acts)
  show ?case
  proof (cases a)
    case (UICall x)
    with Cons.prems obtain s1 where c: "call UIThread x s = Inr s1"
      and r: "run_actions acts s1 = Inr s'" and m: "marshalled x" and ms: "list_all marshalled_action acts"
      by (auto simp: bindE_Inr)
    from marshalled_call_effect[OF m c]
    have t1: "trace s1 = trace s @ (if cancels_startup x then [(UIThread, System_CancelPendingStartup)] else [])"
      by simp
    from Cons.IH[OF ms r] obtain es where t2: "trace s' = trace s1 @ es"
      and w: "list_all (\<lambda>x. fst x = WorkerThread \<or> x = (UIThread, System_CancelPendingStartup)) es"
      by blast
    let ?es = "(if cancels_startup x then [(UIThread, System_CancelPendingStartup)] else []) @ es"
    from t1 t2 w have "trace s' = trace s @ ?es
        \<and> list_all (\<lambda>x. fst x = WorkerThread \<or> x = (UIThread, System_CancelPendingStartup)) ?es"
      by simp
    then show ?thesis by (intro exI[where x="?es"])
  next
    case WorkerIteration
    with Cons.prems obtain st s1 where c: "loop_iteration s = Inr (st, s1)"
      and r: "run_actions acts s1 = Inr s'" and ms: "list_all marshalled_action acts"
      by (auto simp: bindE_Inr)
    from loop_iteration_on_worker[OF c] obtain es1 where t1: "trace s1 = trace s @ es1"
      and w1: "list_all (\<lambda>x. fst x = WorkerThread) es1" by blast
    from Cons.IH[OF ms r] obtain es where t2: "trace s' = trace s1 @ es"
      and w: "list_all (\<lambda>x. fst x = WorkerThread \<or> x = (UIThread, System_CancelPendingStartup)) es"
      by blast
    from w1 have w1': "list_all (\<lambda>x. fst x = WorkerThread \<or> x = (UIThread, System_CancelPendingStartup)) es1"
      by (simp add: list_all_iff)
    from t1 t2 w w1' have "trace s' = trace s @ (es1 @ es)
        \<and> list_all (\<lambda>x. fst x = WorkerThread \<or> x = (UIThread, System_CancelPendingStartup)) (es1 @ es)"
      by simp
    then show ?thesis by (intro exI[where x="es1 @ es"])
  qed
qed


lemma dispatch_on_worker:
  assumes "dispatch p s1 = Inr s2"
  shows "\<exists>es. trace s2 = trace s1 @ es \<and> list_all (\<lambda>e. fst e = WorkerThread) es"
proof -
  from dispatch_effect[OF assms] obtain es where
    t: "trace s2 = trace s1 @ (WorkerThread, Dispatch (fst p)) # es" and w: "list_all worker_event es"
    by blast
  from w have "list_all (\<lambda>e. fst e = WorkerThread) es"
    by (induction es) (auto simp: worker_event_def)
  with t have "trace s2 = trace s1 @ ((WorkerThread, Dispatch (fst p)) # es)
      \<and> list_all (\<lambda>e. fst e = WorkerThread) ((WorkerThread, Dispatch (fst p)) # es)" by simp
  then show ?thesis by (intro exI[where x="(WorkerThread, Dispatch (fst p)) # es"])
qed

text \<open>
  C1 (amended). For every operation written in the marshalling pattern (each posted slot,
  \<open>synchronousPowerOffSystem\<close>, \<open>RunLater\<close>) called on the UI thread, the body does not run
  on the calling thread: the call appends the command with its arguments to the worker's
  queue and changes nothing else, except that the three power-off operations first cancel a
  pending startup on the calling thread and a blocking-queued call takes its semaphore.
  The posted call, when the worker's event loop runs it, records events on the worker thread
  only. In every interleaving of such calls with iterations of the run-loop, every event
  (emulation stepping, input polling, rendering, dispatch and the bodies' calls into the
  core) is on the worker thread, the startup cancellation apart.
\<close>

theorem marshalled_operations_run_on_worker:
  "(marshalled x \<longrightarrow>
      (\<exists>s'. call UIThread x s = Inr s'
          \<and> posted s' = posted s @ [posted_call x]
          \<and> trace s' = trace s @
               (if cancels_startup x then [(UIThread, System_CancelPendingStartup)] else [])
          \<and> s' = s\<lparr>posted := posted s', trace := trace s',
                    caller_released := caller_released s',
                    startup_cancelled := startup_cancelled s'\<rparr>))
 \<and> (\<forall>s1 s2. dispatch (posted_call x) s1 = Inr s2 \<longrightarrow>
        (\<exists>es. trace s2 = trace s1 @ es \<and> list_all (\<lambda>e. fst e = WorkerThread) es))
 \<and> (list_all marshalled_action acts \<longrightarrow>
      (\<forall>s'. run_actions acts s = Inr s' \<longrightarrow>
         (\<exists>es. trace s' = trace s @ es
             \<and> list_all (\<lambda>e. fst e = WorkerThread
                             \<or> e = (UIThread, System_CancelPendingStartup)) es)))"
proof (intro conjI impI allI)
  assume m: "marshalled x"
  let ?s' = "invokeMethod (fst (posted_call x)) (snd (posted_call x))
                  (if cancels_startup x then CancelPendingStartup UIThread s else s)"
  have c: "call UIThread x s = Inr ?s'" by (rule marshalled_call[OF m])
  from conjI[OF c marshalled_call_effect[OF m c]]
  show "\<exists>s'. call UIThread x s = Inr s'
          \<and> posted s' = posted s @ [posted_call x]
          \<and> trace s' = trace s @
               (if cancels_startup x then [(UIThread, System_CancelPendingStartup)] else [])
          \<and> s' = s\<lparr>posted := posted s', trace := trace s',
                    caller_released := caller_released s',
                    startup_cancelled := startup_cancelled s'\<rparr>"
    by (rule exI)
next
  fix s1 s2 assume "dispatch (posted_call x) s1 = Inr s2"
  then show "\<exists>es. trace s2 = trace s1 @ es \<and> list_all (\<lambda>e. fst e = WorkerThread) es"
    by (rule dispatch_on_worker)
next
  fix s' assume "list_all marshalled_action acts" "run_actions acts s = Inr s'"
  then show "\<exists>es. trace s' = trace s @ es
             \<and> list_all (\<lambda>e. fst e = WorkerThread
                             \<or> e = (UIThread, System_CancelPendingStartup)) es"
    by (rule run_actions_on_worker)
qed

lemma pause_then_iterate_run:
  "run_actions pause_then_iterate running_bridge =
     Inr (running_bridge\<lparr>system := Paused,
            m_background_controller_polling_timer := Some True,
            trace := map (Pair WorkerThread)
              [System_RunFrame, InputManager_PollSources, RenderOSD, DisplayRender, ImGuiNewFrame,
               System_UpdatePerformanceCounters, System_Throttle,
               Dispatch (pauseSystem True False), Core (pauseSystem True False),
               CommonHostInterface_OnSystemPaused True, Emit (emulationPaused True),
               RenderOSD, DisplayRender, ImGuiNewFrame, PollAndUpdate]\<rparr>)"
  by (simp add: pause_then_iterate_def invokeMethod_def eval_defs)

lemma pause_dispatch:
  "\<exists>s2. dispatch (posted_call (Slot (pauseSystem True False))) running_bridge = Inr s2"
  by (simp add: eval_defs)

theorem marshalled_operations_run_on_worker_witness:
  "(\<exists>s'. call UIThread (Slot (pauseSystem True False)) running_bridge = Inr s'
        \<and> posted s' = [(pauseSystem True False, QueuedConnection)] \<and> trace s' = [])
 \<and> (\<exists>s2 es. dispatch (posted_call (Slot (pauseSystem True False))) running_bridge = Inr s2
        \<and> trace s2 = es \<and> list_all (\<lambda>e. fst e = WorkerThread) es)
 \<and> (\<exists>s' es. run_actions pause_then_iterate running_bridge = Inr s' \<and> trace s' = es
        \<and> list_all (\<lambda>e. fst e = WorkerThread \<or> e = (UIThread, System_CancelPendingStartup)) es)"
proof -
  note t = marshalled_operations_run_on_worker
             [of "Slot (pauseSystem True False)" running_bridge pause_then_iterate]
  have m: "marshalled (Slot (pauseSystem True False))" by simp
  have ms: "list_all marshalled_action pause_then_iterate" by (simp add: pause_then_iterate_def)
  have i: "posted running_bridge = []" "trace running_bridge = []"
    by (simp_all add: running_bridge_def initial_bridge_def)
  have nc: "\<not> cancels_startup (Slot (pauseSystem True False))" by (simp add: cancels_startup_def)
  from t [THEN conjunct1, rule_format, OF m] i nc
  have 1: "\<exists>s'. call UIThread (Slot (pauseSystem True False)) running_bridge = Inr s'
        \<and> posted s' = [(pauseSystem True False, QueuedConnection)] \<and> trace s' = []"
    by auto
  from pause_dispatch obtain s2 where
    d: "dispatch (posted_call (Slot (pauseSystem True False))) running_bridge = Inr s2" by blast
  from t [THEN conjunct2, THEN conjunct1, rule_format, OF d] i
  have 2: "\<exists>s2 es. dispatch (posted_call (Slot (pauseSystem True False))) running_bridge = Inr s2
        \<and> trace s2 = es \<and> list_all (\<lambda>e. fst e = WorkerThread) es"
    using d by auto
  from t [THEN conjunct2, THEN conjunct2, rule_format, OF ms pause_then_iterate_run] i
  have 3: "\<exists>s' es. run_actions pause_then_iterate running_bridge = Inr s' \<and> trace s' = es
        \<and> list_all (\<lambda>e. fst e = WorkerThread \<or> e = (UIThread, System_CancelPendingStartup)) es"
    using pause_then_iterate_run by auto
  from 1 2 3 show ?thesis by blast
qed

text \<open>
  C1 as stated fails: \<open>refreshGameList\<close> asserts that it is not on the worker thread and runs
  its body on the calling thread; nothing is posted.
\<close>

theorem refreshGameList_runs_on_calling_thread:
  "call UIThread (RefreshGameList False False) idle_bridge =
     Inr (idle_bridge\<lparr>trace := [(UIThread, GameList_Refresh False False),
                                 (UIThread, Emit gameListRefreshed)]\<rparr>)
   \<and> posted (idle_bridge\<lparr>trace := [(UIThread, GameList_Refresh False False),
                                 (UIThread, Emit gameListRefreshed)]\<rparr>) = posted idle_bridge"
  by (simp add: refreshGameList_def isOnWorkerThread_def record_events_def idle_bridge_def
      initial_bridge_def)



end
